theory Spec2Isabelle
  imports Complex_Main "HOL-Library.Char_ord" "HOL-Library.List_Lexorder" "HOL-Library.Word"
begin

section \<open>Lookalike model: the notebook as functions\<close>

text \<open>
  The notebook \<^verbatim>\<open>Utkarsh_Pal_Lookalike.ipynb\<close> is a straight-line pandas/scikit-learn
  script. Each cell becomes a function of the three input tables. A quantity is a
  64-bit integer, as pandas reads the column. Every other number is an exact real: the
  rounding of 64-bit floating point is not modelled, and neither are \<^verbatim>\<open>NaN\<close> or
  infinite values in the input. The library calls
  (\<^verbatim>\<open>pd.merge\<close>, \<^verbatim>\<open>groupby\<close>, \<^verbatim>\<open>OneHotEncoder\<close>, \<^verbatim>\<open>MinMaxScaler\<close>,
  \<^verbatim>\<open>cosine_similarity\<close>, \<^verbatim>\<open>nlargest\<close>) are written out as what they compute,
  for scikit-learn 1.2 or later (the notebook passes \<^verbatim>\<open>sparse_output\<close>).
  Keys, regions and categories are strings, ordered as Python orders them, character
  by character; a region may be missing.
\<close>

subsection \<open>Input tables\<close>

record CustomerRecord =
  c_CustomerID :: string
  c_Region :: "string option"

record ProductRecord =
  p_ProductID :: string
  p_Category :: string

record TransactionRecord =
  t_TransactionID :: string
  t_CustomerID :: string
  t_ProductID :: string
  t_Quantity :: "64 word"
  t_TotalValue :: real

text \<open>An exception of the script is a value; nothing in the notebook catches one.\<close>

datatype error = KeyError | ValueError | TypeError

subsection \<open>Cells 3.1 and 3.2: the two left merges\<close>

text \<open>
  \<^verbatim>\<open>pd.merge(transactions, products, on='ProductID', how='left')\<close>: every transaction
  row is kept, once per product row with the same key, or once with a missing
  \<^verbatim>\<open>Category\<close> when no product matches.
\<close>

definition transactions_products ::
  "TransactionRecord list \<Rightarrow> ProductRecord list \<Rightarrow> (TransactionRecord \<times> string option) list" where
  "transactions_products transactions products =
     concat (map (\<lambda>t. case filter (\<lambda>p. p_ProductID p = t_ProductID t) products of
                          [] \<Rightarrow> [(t, None)]
                        | ps \<Rightarrow> map (\<lambda>p. (t, Some (p_Category p))) ps) transactions)"

text \<open>
  \<^verbatim>\<open>pd.merge(transactions_products, customers, on='CustomerID', how='left')\<close>: again
  every row is kept, once per customer row with the same key. The customer's columns
  are not read afterwards, so a row of \<open>full_data\<close> is the transaction and its category.
\<close>

definition full_data ::
  "TransactionRecord list \<Rightarrow> ProductRecord list \<Rightarrow> CustomerRecord list \<Rightarrow>
   (TransactionRecord \<times> string option) list" where
  "full_data transactions products customers =
     concat (map (\<lambda>r. case filter (\<lambda>cu. c_CustomerID cu = t_CustomerID (fst r)) customers of
                          [] \<Rightarrow> [r]
                        | cs \<Rightarrow> map (\<lambda>cu. r) cs) (transactions_products transactions products))"

subsection \<open>Cell 4.1: transaction aggregates\<close>

text \<open>
  The columns of the unstacked tables are the categories present in \<open>full_data\<close>, in
  sorted order; \<^verbatim>\<open>groupby\<close> drops the rows whose \<^verbatim>\<open>Category\<close> is missing.
\<close>

definition categories :: "(TransactionRecord \<times> string option) list \<Rightarrow> string list" where
  "categories fd = sort (remdups (List.map_filter snd fd))"

definition rows_of ::
  "(TransactionRecord \<times> string option) list \<Rightarrow> string \<Rightarrow> (TransactionRecord \<times> string option) list" where
  "rows_of fd k = filter (\<lambda>r. t_CustomerID (fst r) = k) fd"

text \<open>
  A customer has a row in \<open>spend_per_category\<close> and \<open>quantity_per_category\<close> when it has
  a transaction with a category; a category it never bought is filled with 0. The sum of
  the \<^verbatim>\<open>int64\<close> column \<^verbatim>\<open>Quantity\<close> wraps around silently, and is read as a signed
  number.
\<close>

definition spend_per_category ::
  "(TransactionRecord \<times> string option) list \<Rightarrow> string \<Rightarrow> real list option" where
  "spend_per_category fd k =
     (if list_ex (\<lambda>r. snd r \<noteq> None) (rows_of fd k)
      then Some (map (\<lambda>c. sum_list (map (\<lambda>r. t_TotalValue (fst r))
                                         (filter (\<lambda>r. snd r = Some c) (rows_of fd k))))
                     (categories fd))
      else None)"

definition quantity_per_category ::
  "(TransactionRecord \<times> string option) list \<Rightarrow> string \<Rightarrow> real list option" where
  "quantity_per_category fd k =
     (if list_ex (\<lambda>r. snd r \<noteq> None) (rows_of fd k)
      then Some (map (\<lambda>c. real_of_int (sint (sum_list (map (\<lambda>r. t_Quantity (fst r))
                                         (filter (\<lambda>r. snd r = Some c) (rows_of fd k))))))
                     (categories fd))
      else None)"

definition nunique :: "'a list \<Rightarrow> nat" where
  "nunique xs = length (remdups xs)"

definition unique_products :: "(TransactionRecord \<times> string option) list \<Rightarrow> string \<Rightarrow> real option" where
  "unique_products fd k =
     (if rows_of fd k = [] then None
      else Some (real (nunique (map (\<lambda>r. t_ProductID (fst r)) (rows_of fd k)))))"

definition total_transactions :: "(TransactionRecord \<times> string option) list \<Rightarrow> string \<Rightarrow> real option" where
  "total_transactions fd k =
     (if rows_of fd k = [] then None
      else Some (real (nunique (map (\<lambda>r. t_TransactionID (fst r)) (rows_of fd k)))))"

text \<open>\<^verbatim>\<open>fillna(0)\<close> on a block of \<open>n\<close> columns that may be missing.\<close>

definition fillna :: "nat \<Rightarrow> real list option \<Rightarrow> real list" where
  "fillna n v = (case v of None \<Rightarrow> replicate n 0 | Some xs \<Rightarrow> xs)"

text \<open>
  \<^verbatim>\<open>pd.concat([...], axis=1)\<close> takes the union of the four indexes, which is the set of
  customer keys with a row in \<open>full_data\<close>, and \<^verbatim>\<open>fillna(0, inplace=True)\<close> fills the rest.
\<close>

definition transaction_features ::
  "(TransactionRecord \<times> string option) list \<Rightarrow> string \<Rightarrow> real list option" where
  "transaction_features fd k =
     (if rows_of fd k = [] then None
      else Some (fillna (length (categories fd)) (spend_per_category fd k)
               @ fillna (length (categories fd)) (quantity_per_category fd k)
               @ fillna 1 (map_option (\<lambda>x. [x]) (unique_products fd k))
               @ fillna 1 (map_option (\<lambda>x. [x]) (total_transactions fd k))))"

definition transaction_feature_names :: "(TransactionRecord \<times> string option) list \<Rightarrow> string list" where
  "transaction_feature_names fd =
     categories fd @ categories fd @ [''UniqueProducts'', ''TotalTransactions'']"

subsection \<open>Cell 4.2: one-hot encoding of the region\<close>

text \<open>
  \<^verbatim>\<open>OneHotEncoder(sparse_output=False).fit_transform(customers[['Region']])\<close>: the
  categories are the distinct values in sorted order, and a missing value is a category
  of its own, placed last. The encoder refuses an empty table.
\<close>

definition region_categories :: "CustomerRecord list \<Rightarrow> string option list" where
  "region_categories customers =
     map Some (sort (remdups (List.map_filter c_Region customers)))
     @ (if None \<in> set (map c_Region customers) then [None] else [])"

definition region_encoded :: "CustomerRecord list \<Rightarrow> error + real list list" where
  "region_encoded customers =
     (if customers = [] then Inl ValueError
      else Inr (map (\<lambda>cu. map (\<lambda>c. if c_Region cu = c then 1 else 0) (region_categories customers))
                    customers))"

definition get_feature_names_out :: "CustomerRecord list \<Rightarrow> string list" where
  "get_feature_names_out customers =
     map (\<lambda>c. ''Region_'' @ (case c of None \<Rightarrow> ''nan'' | Some s \<Rightarrow> s)) (region_categories customers)"

subsection \<open>Cell 4.3: the feature table\<close>

text \<open>
  \<^verbatim>\<open>customer_features.join(transaction_features, how='left')\<close> keeps every row of the
  left table in its order and raises when a column name is on both sides;
  \<^verbatim>\<open>fillna(0)\<close> fills the customers without a row on the right;
  \<^verbatim>\<open>reset_index\<close> raises when a column is already called \<^verbatim>\<open>CustomerID\<close>.
\<close>

definition customer_data ::
  "CustomerRecord list \<Rightarrow> ProductRecord list \<Rightarrow> TransactionRecord list \<Rightarrow>
   error + (string \<times> real list) list" where
  "customer_data customers products transactions =
     (let fd = full_data transactions products customers in
      case region_encoded customers of
        Inl e \<Rightarrow> Inl e
      | Inr enc \<Rightarrow>
          if list_ex (\<lambda>n. n \<in> set (transaction_feature_names fd)) (get_feature_names_out customers)
          then Inl ValueError
          else if ''CustomerID'' \<in> set (get_feature_names_out customers @ transaction_feature_names fd)
          then Inl ValueError
          else Inr (map (\<lambda>(cu, ind). (c_CustomerID cu,
                           ind @ fillna (2 * length (categories fd) + 2)
                                        (transaction_features fd (c_CustomerID cu))))
                        (zip customers enc)))"

subsection \<open>Cell 5: min-max scaling\<close>

text \<open>
  \<^verbatim>\<open>MinMaxScaler().fit_transform\<close>: per column, \<open>scale_ = 1 / range\<close> with a range
  below ten machine epsilons replaced by 1, \<open>min_ = 0 - data_min * scale_\<close>, and the
  value \<open>x\<close> becomes \<open>x * scale_ + min_\<close>.
\<close>

definition finfo_eps :: real where
  "finfo_eps = 1 / 2 ^ 52"

definition handle_zeros_in_scale :: "real \<Rightarrow> real" where
  "handle_zeros_in_scale s = (if s < 10 * finfo_eps then 1 else s)"

definition column :: "real list list \<Rightarrow> nat \<Rightarrow> real list" where
  "column X j = map (\<lambda>r. r ! j) X"

definition data_min :: "real list list \<Rightarrow> nat \<Rightarrow> real" where
  "data_min X j = Min (set (column X j))"

definition data_max :: "real list list \<Rightarrow> nat \<Rightarrow> real" where
  "data_max X j = Max (set (column X j))"

definition data_range :: "real list list \<Rightarrow> nat \<Rightarrow> real" where
  "data_range X j = data_max X j - data_min X j"

definition scaler_scale :: "real list list \<Rightarrow> nat \<Rightarrow> real" where
  "scaler_scale X j = (1 - 0) / handle_zeros_in_scale (data_range X j)"

definition scaler_min :: "real list list \<Rightarrow> nat \<Rightarrow> real" where
  "scaler_min X j = 0 - data_min X j * scaler_scale X j"

definition scaler_fit_transform :: "real list list \<Rightarrow> error + real list list" where
  "scaler_fit_transform X =
     (if X = [] then Inl ValueError
      else Inr (map (\<lambda>r. map (\<lambda>j. r ! j * scaler_scale X j + scaler_min X j) [0..<length r]) X))"

definition customer_data_scaled ::
  "CustomerRecord list \<Rightarrow> ProductRecord list \<Rightarrow> TransactionRecord list \<Rightarrow>
   error + (string \<times> real list) list" where
  "customer_data_scaled customers products transactions =
     (case customer_data customers products transactions of
        Inl e \<Rightarrow> Inl e
      | Inr rows \<Rightarrow>
          (case scaler_fit_transform (map snd rows) of
             Inl e \<Rightarrow> Inl e
           | Inr S \<Rightarrow> Inr (zip (map fst rows) S)))"

subsection \<open>Cell 6: cosine similarity\<close>

text \<open>
  \<^verbatim>\<open>cosine_similarity(X)\<close> divides every row by its Euclidean norm, a norm below ten
  machine epsilons replaced by 1, and multiplies the result with its transpose.

  The sums, products, quotients and square roots below are exact, where the code rounds
  each of them to 64 bits, in an order of summation that its linear algebra library
  chooses. The entries of the code's matrix therefore differ from these by rounding: for
  the row \<open>[1, 0, 1, 1, 1, 1]\<close> the code's diagonal entry is \<open>0.9999999999999999\<close> and
  for \<open>[1, 0, 1, 1, 0, 0]\<close> it is \<open>1.0000000000000002\<close>, where the exact value is 1,
  and scores that are equal here can differ there in the last bit. For this reason the
  statements about the specification at the end of this theory give the value of an
  entry only where the code computes it without rounding, and no bound that rounding
  can cross; what they say of the ranking holds for every matrix of scores.
\<close>

definition dot :: "real list \<Rightarrow> real list \<Rightarrow> real" where
  "dot x y = sum_list (map (\<lambda>(a, b). a * b) (zip x y))"

definition row_norms :: "real list \<Rightarrow> real" where
  "row_norms x = sqrt (dot x x)"

definition normalize :: "real list list \<Rightarrow> real list list" where
  "normalize X = map (\<lambda>x. map (\<lambda>v. v / handle_zeros_in_scale (row_norms x)) x) X"

definition cosine_similarity :: "real list list \<Rightarrow> real list list" where
  "cosine_similarity X = map (\<lambda>x. map (\<lambda>y. dot x y) (normalize X)) (normalize X)"

text \<open>The labelled matrix: the index is the list of customer keys, rows and columns alike.\<close>

definition similarity_df ::
  "CustomerRecord list \<Rightarrow> ProductRecord list \<Rightarrow> TransactionRecord list \<Rightarrow>
   error + (string list \<times> real list list)" where
  "similarity_df customers products transactions =
     (case customer_data_scaled customers products transactions of
        Inl e \<Rightarrow> Inl e
      | Inr rows \<Rightarrow> Inr (map fst rows, cosine_similarity (map snd rows)))"

subsection \<open>Cell 7: the three most similar customers\<close>

text \<open>
  \<^verbatim>\<open>Series.nlargest(n)\<close> with the default \<^verbatim>\<open>keep='first'\<close>: a stable sort of the
  negated values, so equal values keep the order they have in the series, then the first
  \<open>n\<close> entries. (A series of at most \<open>n\<close> entries is sorted whole, in descending
  order, with the same result.)
\<close>

definition nlargest :: "nat \<Rightarrow> (string \<times> real) list \<Rightarrow> (string \<times> real) list" where
  "nlargest n s = take n (sort_key (\<lambda>e. - snd e) s)"

text \<open>
  The body of the loop. \<^verbatim>\<open>similarity_df.loc[cust_id]\<close> raises \<^verbatim>\<open>KeyError\<close> for a label
  that is not in the index; for a label that is there more than once it is a table, whose
  \<^verbatim>\<open>nlargest(3)\<close> raises \<^verbatim>\<open>TypeError\<close>. \<^verbatim>\<open>drop(index=cust_id)\<close> removes the entries
  labelled \<open>cust_id\<close>.
\<close>

definition top_3_customers ::
  "string list \<times> real list list \<Rightarrow> string \<Rightarrow> error + (string \<times> real) list" where
  "top_3_customers df cust_id =
     (case filter (\<lambda>i. fst df ! i = cust_id) [0..<length (fst df)] of
        [] \<Rightarrow> Inl KeyError
      | [i] \<Rightarrow> Inr (nlargest 3 (filter (\<lambda>e. fst e \<noteq> cust_id) (zip (fst df) (snd df ! i))))
      | _ \<Rightarrow> Inl TypeError)"

fun lookalike_loop ::
  "string list \<times> real list list \<Rightarrow> string list \<Rightarrow> error + (string \<times> (string \<times> real) list) list" where
  "lookalike_loop df [] = Inr []"
| "lookalike_loop df (cust_id # rest) =
     (case top_3_customers df cust_id of
        Inl e \<Rightarrow> Inl e
      | Inr top3 \<Rightarrow>
          (case lookalike_loop df rest of
             Inl e \<Rightarrow> Inl e
           | Inr d \<Rightarrow> Inr ((cust_id, top3) # d)))"

definition first_20_customers :: "CustomerRecord list \<Rightarrow> string list" where
  "first_20_customers customers = take 20 (map c_CustomerID customers)"

definition lookalike_dict ::
  "CustomerRecord list \<Rightarrow> ProductRecord list \<Rightarrow> TransactionRecord list \<Rightarrow>
   error + (string \<times> (string \<times> real) list) list" where
  "lookalike_dict customers products transactions =
     (case similarity_df customers products transactions of
        Inl e \<Rightarrow> Inl e
      | Inr df \<Rightarrow> lookalike_loop df (first_20_customers customers))"

subsection \<open>Notions used to state the properties\<close>

text \<open>
  \<open>occurs_before xs a b\<close>: some occurrence of \<open>a\<close> in \<open>xs\<close> is followed, later in the
  list, by an occurrence of \<open>b\<close>.
\<close>

fun occurs_before :: "'a list \<Rightarrow> 'a \<Rightarrow> 'a \<Rightarrow> bool" where
  "occurs_before [] a b = False"
| "occurs_before (x # xs) a b = ((x = a \<and> b \<in> set xs) \<or> occurs_before xs a b)"

text \<open>
  Two orders on (key, score) pairs: higher score first and, on equal scores, smaller key
  first; higher score first and, on equal scores, the key that comes first in the index.
\<close>

definition by_score_then_key :: "string \<times> real \<Rightarrow> string \<times> real \<Rightarrow> bool" where
  "by_score_then_key a b = (snd b < snd a \<or> (snd a = snd b \<and> fst a < fst b))"

definition by_score_then_position :: "string list \<Rightarrow> string \<times> real \<Rightarrow> string \<times> real \<Rightarrow> bool" where
  "by_score_then_position index a b =
     (snd b < snd a \<or> (snd a = snd b \<and> occurs_before index (fst a) (fst b)))"

text \<open>
  A feature vector is the indicator block (one column per region category) followed by
  the aggregate block.
\<close>

definition aggregate_block :: "CustomerRecord list \<Rightarrow> real list \<Rightarrow> real list" where
  "aggregate_block customers v = drop (length (region_categories customers)) v"

text \<open>The transactions of one customer key, and the categories of the products that were sold.\<close>

definition transactions_of :: "TransactionRecord list \<Rightarrow> string \<Rightarrow> TransactionRecord set" where
  "transactions_of transactions k = {t \<in> set transactions. t_CustomerID t = k}"

definition sold_categories :: "ProductRecord list \<Rightarrow> TransactionRecord list \<Rightarrow> string set" where
  "sold_categories products transactions =
     p_Category ` {p \<in> set products. \<exists>t\<in>set transactions. t_ProductID t = p_ProductID p}"

text \<open>
  The column names of the indicator block. A category of a sold product clashes when it
  is one of them or is \<^verbatim>\<open>CustomerID\<close>: these are the names on which the join and
  \<^verbatim>\<open>reset_index\<close> raise.
\<close>

definition region_column_names :: "CustomerRecord list \<Rightarrow> string set" where
  "region_column_names customers =
     (\<lambda>r. ''Region_'' @ (case r of None \<Rightarrow> ''nan'' | Some s \<Rightarrow> s)) ` c_Region ` set customers"

definition column_name_clash ::
  "CustomerRecord list \<Rightarrow> ProductRecord list \<Rightarrow> TransactionRecord list \<Rightarrow> bool" where
  "column_name_clash customers products transactions =
     (\<exists>c\<in>sold_categories products transactions.
        c = ''CustomerID'' \<or> c \<in> region_column_names customers)"

text \<open>A transaction has a profile when its customer key is in the customer table.\<close>

definition has_profile :: "CustomerRecord list \<Rightarrow> TransactionRecord \<Rightarrow> bool" where
  "has_profile customers t = (t_CustomerID t \<in> c_CustomerID ` set customers)"

subsection \<open>Example tables\<close>

text \<open>
  Customers \<open>A\<close>, \<open>B\<close>, \<open>D\<close>, \<open>E\<close>, \<open>F\<close> in region \<open>X\<close>, \<open>C\<close> in region \<open>Y\<close>, \<open>N\<close> without a
  region; two products; transactions on the known product \<open>P1\<close> and on the unknown \<open>P9\<close>,
  one of them by the unknown customer \<open>Q\<close>.
\<close>

definition cA :: CustomerRecord where "cA = \<lparr>c_CustomerID = ''A'', c_Region = Some ''X''\<rparr>"

definition cB :: CustomerRecord where "cB = \<lparr>c_CustomerID = ''B'', c_Region = Some ''X''\<rparr>"

definition cC :: CustomerRecord where "cC = \<lparr>c_CustomerID = ''C'', c_Region = Some ''Y''\<rparr>"

definition cD :: CustomerRecord where "cD = \<lparr>c_CustomerID = ''D'', c_Region = Some ''X''\<rparr>"

definition cE :: CustomerRecord where "cE = \<lparr>c_CustomerID = ''E'', c_Region = Some ''X''\<rparr>"

definition cF :: CustomerRecord where "cF = \<lparr>c_CustomerID = ''F'', c_Region = Some ''X''\<rparr>"

definition cN :: CustomerRecord where "cN = \<lparr>c_CustomerID = ''N'', c_Region = None\<rparr>"

definition p1 :: ProductRecord where "p1 = \<lparr>p_ProductID = ''P1'', p_Category = ''Elec''\<rparr>"

definition p2 :: ProductRecord where "p2 = \<lparr>p_ProductID = ''P2'', p_Category = ''Books''\<rparr>"

definition tA :: TransactionRecord where
  "tA = \<lparr>t_TransactionID = ''T1'', t_CustomerID = ''A'', t_ProductID = ''P1'', t_Quantity = 2, t_TotalValue = 20\<rparr>"

definition tB :: TransactionRecord where
  "tB = \<lparr>t_TransactionID = ''T2'', t_CustomerID = ''B'', t_ProductID = ''P1'', t_Quantity = 2, t_TotalValue = 20\<rparr>"

definition tU :: TransactionRecord where
  "tU = \<lparr>t_TransactionID = ''T3'', t_CustomerID = ''C'', t_ProductID = ''P9'', t_Quantity = 1, t_TotalValue = 5\<rparr>"

definition tQ :: TransactionRecord where
  "tQ = \<lparr>t_TransactionID = ''T7'', t_CustomerID = ''Q'', t_ProductID = ''P1'', t_Quantity = 1, t_TotalValue = 5\<rparr>"

definition tS :: TransactionRecord where
  "tS = \<lparr>t_TransactionID = ''T4'', t_CustomerID = ''A'', t_ProductID = ''P1'', t_Quantity = 1, t_TotalValue = 1 / 2 ^ 60\<rparr>"

definition tL :: TransactionRecord where
  "tL = \<lparr>t_TransactionID = ''T5'', t_CustomerID = ''B'', t_ProductID = ''P1'', t_Quantity = 1, t_TotalValue = 1\<rparr>"

definition tZ :: TransactionRecord where
  "tZ = \<lparr>t_TransactionID = ''T6'', t_CustomerID = ''D'', t_ProductID = ''P1'', t_Quantity = 1, t_TotalValue = 0\<rparr>"

section \<open>Properties\<close>

subsection \<open>The merges and the feature table\<close>

lemma in_left_rows:
  "r \<in> set (case xs of [] \<Rightarrow> [d] | y # ys \<Rightarrow> map f (y # ys)) \<longleftrightarrow>
     (if xs = [] then r = d else r \<in> f ` set xs)"
  by (cases xs) auto

lemma transactions_products_iff:
  "(t, c) \<in> set (transactions_products ts ps) \<longleftrightarrow>
   t \<in> set ts \<and> (case c of None \<Rightarrow> t_ProductID t \<notin> p_ProductID ` set ps
                 | Some cat \<Rightarrow> \<exists>p\<in>set ps. p_ProductID p = t_ProductID t \<and> p_Category p = cat)"
proof -
  have "(t, c) \<in> set (transactions_products ts ps) \<longleftrightarrow>
        (\<exists>t'\<in>set ts. if filter (\<lambda>p. p_ProductID p = t_ProductID t') ps = [] then (t, c) = (t', None)
            else (t, c) \<in> (\<lambda>p. (t', Some (p_Category p))) ` set (filter (\<lambda>p. p_ProductID p = t_ProductID t') ps))"
    unfolding transactions_products_def by (simp add: in_left_rows)
  also have "\<dots> \<longleftrightarrow> t \<in> set ts \<and>
        (if filter (\<lambda>p. p_ProductID p = t_ProductID t) ps = [] then c = None
         else (t, c) \<in> (\<lambda>p. (t, Some (p_Category p))) ` set (filter (\<lambda>p. p_ProductID p = t_ProductID t) ps))"
    by (auto split: if_splits)
  also have "\<dots> \<longleftrightarrow> t \<in> set ts \<and> (case c of None \<Rightarrow> t_ProductID t \<notin> p_ProductID ` set ps
                 | Some cat \<Rightarrow> \<exists>p\<in>set ps. p_ProductID p = t_ProductID t \<and> p_Category p = cat)"
  proof (cases c)
    case None
    have "filter (\<lambda>p. p_ProductID p = t_ProductID t) ps = [] \<longleftrightarrow>
          t_ProductID t \<notin> p_ProductID ` set ps"
      by (force simp: filter_empty_conv)
    with None show ?thesis by auto
  next
    case (Some cat)
    have "filter (\<lambda>p. p_ProductID p = t_ProductID t) ps \<noteq> []"
      if "p \<in> set ps" "p_ProductID p = t_ProductID t" for p
      using that by (auto simp: filter_empty_conv)
    with Some show ?thesis by (auto simp: image_iff)
  qed
  finally show ?thesis .
qed

lemma set_full_data:
  "set (full_data ts ps cs) = set (transactions_products ts ps)"
proof -
  have "r \<in> set (full_data ts ps cs) \<longleftrightarrow> r \<in> set (transactions_products ts ps)" for r
  proof
    assume "r \<in> set (full_data ts ps cs)"
    then show "r \<in> set (transactions_products ts ps)"
      unfolding full_data_def by (auto simp: in_left_rows split: if_splits)
  next
    assume r: "r \<in> set (transactions_products ts ps)"
    have "r \<in> set (case filter (\<lambda>cu. c_CustomerID cu = t_CustomerID (fst r)) cs of
                      [] \<Rightarrow> [r] | c # cs' \<Rightarrow> map (\<lambda>cu. r) (c # cs'))"
      by (cases "filter (\<lambda>cu. c_CustomerID cu = t_CustomerID (fst r)) cs") auto
    with r show "r \<in> set (full_data ts ps cs)"
      unfolding full_data_def set_concat set_map by blast
  qed
  then show ?thesis by blast
qed

lemma full_data_iff:
  "(t, c) \<in> set (full_data ts ps cs) \<longleftrightarrow>
   t \<in> set ts \<and> (case c of None \<Rightarrow> t_ProductID t \<notin> p_ProductID ` set ps
                 | Some cat \<Rightarrow> \<exists>p\<in>set ps. p_ProductID p = t_ProductID t \<and> p_Category p = cat)"
  unfolding set_full_data by (rule transactions_products_iff)

lemma full_data_fst: "fst ` set (full_data ts ps cs) = set ts"
proof (intro equalityI subsetI)
  fix t assume "t \<in> fst ` set (full_data ts ps cs)"
  then show "t \<in> set ts" by (auto simp: full_data_iff)
next
  fix t assume t: "t \<in> set ts"
  show "t \<in> fst ` set (full_data ts ps cs)"
  proof (cases "t_ProductID t \<in> p_ProductID ` set ps")
    case True
    then obtain p where "p \<in> set ps" "p_ProductID p = t_ProductID t" by auto
    with t have "(t, Some (p_Category p)) \<in> set (full_data ts ps cs)"
      by (auto simp: full_data_iff)
    then show ?thesis by force
  next
    case False
    with t have "(t, None) \<in> set (full_data ts ps cs)" by (simp add: full_data_iff)
    then show ?thesis by force
  qed
qed

lemma set_rows_of:
  "fst ` set (rows_of (full_data ts ps cs) k) = {t \<in> set ts. t_CustomerID t = k}"
proof -
  have "fst ` set (rows_of (full_data ts ps cs) k)
      = {t \<in> fst ` set (full_data ts ps cs). t_CustomerID t = k}"
    by (force simp: rows_of_def)
  then show ?thesis by (simp add: full_data_fst)
qed

lemma rows_of_empty:
  "rows_of (full_data ts ps cs) k = [] \<longleftrightarrow> (\<forall>t\<in>set ts. t_CustomerID t \<noteq> k)"
proof -
  have "rows_of (full_data ts ps cs) k = [] \<longleftrightarrow> fst ` set (rows_of (full_data ts ps cs) k) = {}"
    by simp
  then show ?thesis unfolding set_rows_of by auto
qed

lemma set_categories:
  "set (categories (full_data ts ps cs)) =
     p_Category ` {p \<in> set ps. \<exists>t\<in>set ts. t_ProductID t = p_ProductID p}"
proof -
  have "set (categories (full_data ts ps cs)) = {c. \<exists>t. (t, Some c) \<in> set (full_data ts ps cs)}"
    by (force simp: categories_def List.map_filter_def)
  also have "\<dots> = p_Category ` {p \<in> set ps. \<exists>t\<in>set ts. t_ProductID t = p_ProductID p}"
  proof (intro equalityI subsetI)
    fix c assume "c \<in> {c. \<exists>t. (t, Some c) \<in> set (full_data ts ps cs)}"
    then obtain t p where "t \<in> set ts" "p \<in> set ps" "p_ProductID p = t_ProductID t" "p_Category p = c"
      by (auto simp: full_data_iff)
    then show "c \<in> p_Category ` {p \<in> set ps. \<exists>t\<in>set ts. t_ProductID t = p_ProductID p}"
      by force
  next
    fix c assume "c \<in> p_Category ` {p \<in> set ps. \<exists>t\<in>set ts. t_ProductID t = p_ProductID p}"
    then obtain t p where "t \<in> set ts" "p \<in> set ps" "p_ProductID p = t_ProductID t" "p_Category p = c"
      by force
    then have "(t, Some c) \<in> set (full_data ts ps cs)"
      unfolding full_data_iff by auto
    then show "c \<in> {c. \<exists>t. (t, Some c) \<in> set (full_data ts ps cs)}" by blast
  qed
  finally show ?thesis .
qed

lemma length_categories:
  "length (categories (full_data ts ps cs)) =
     card (p_Category ` {p \<in> set ps. \<exists>t\<in>set ts. t_ProductID t = p_ProductID p})"
proof -
  have "distinct (categories (full_data ts ps cs))" by (simp add: categories_def)
  then have "length (categories (full_data ts ps cs)) = card (set (categories (full_data ts ps cs)))"
    by (simp add: distinct_card)
  then show ?thesis by (simp only: set_categories)
qed

lemma set_map_filter: "set (List.map_filter f xs) = {y. \<exists>x\<in>set xs. f x = Some y}"
  by (induction xs) (auto simp: List.map_filter_simps split: option.splits)

lemma set_region_categories: "set (region_categories cs) = c_Region ` set cs"
proof -
  have "r \<in> set (region_categories cs) \<longleftrightarrow> r \<in> c_Region ` set cs" for r
  proof (cases r)
    case None
    then show ?thesis by (auto simp: region_categories_def)
  next
    case (Some s)
    then show ?thesis by (auto simp: region_categories_def set_map_filter image_iff) metis
  qed
  then show ?thesis by blast
qed

lemma distinct_region_categories: "distinct (region_categories cs)"
  by (auto simp: region_categories_def distinct_map)

lemma length_region_categories: "length (region_categories cs) = card (c_Region ` set cs)"
  using distinct_card[OF distinct_region_categories, of cs] by (simp add: set_region_categories)

lemma length_fillna_transaction_features:
  "n = 2 * length (categories fd) + 2 \<Longrightarrow> length (fillna n (transaction_features fd k)) = n"
  by (simp add: fillna_def transaction_features_def spend_per_category_def quantity_per_category_def
      unique_products_def total_transactions_def)

lemma customer_data_Inr:
  assumes "customer_data cs ps ts = Inr rows"
  shows "rows = map (\<lambda>cu. (c_CustomerID cu,
                  map (\<lambda>c. if c_Region cu = c then 1 else 0) (region_categories cs)
                  @ fillna (2 * length (categories (full_data ts ps cs)) + 2)
                      (transaction_features (full_data ts ps cs) (c_CustomerID cu)))) cs"
  using assms
  by (auto simp: customer_data_def region_encoded_def Let_def zip_map2 zip_same_conv_map comp_def
      split: if_splits)

lemma customer_data_keys:
  "customer_data cs ps ts = Inr rows \<Longrightarrow> map fst rows = map c_CustomerID cs"
  by (auto simp: customer_data_def region_encoded_def Let_def zip_map2 map_zip_map comp_def split: if_splits sum.splits
       intro!: nth_equalityI)

lemma customer_data_row:
  assumes "customer_data cs ps ts = Inr rows" and "(k, v) \<in> set rows"
  shows "\<exists>cu\<in>set cs. k = c_CustomerID cu \<and>
           v = map (\<lambda>c. if c_Region cu = c then 1 else 0) (region_categories cs)
               @ fillna (2 * length (categories (full_data ts ps cs)) + 2)
                   (transaction_features (full_data ts ps cs) k)"
  using assms(2) unfolding customer_data_Inr[OF assms(1)] by auto

lemma aggregate_block_row:
  assumes "customer_data cs ps ts = Inr rows" and "(k, v) \<in> set rows"
  shows "aggregate_block cs v =
           fillna (2 * length (categories (full_data ts ps cs)) + 2)
                  (transaction_features (full_data ts ps cs) k)"
  using customer_data_row[OF assms] by (auto simp: aggregate_block_def)

lemma nunique_card: "nunique xs = card (set xs)"
  by (simp add: nunique_def length_remdups_card_conv)

lemma rows_of_unmatched:
  assumes "\<forall>t\<in>transactions_of ts k. t_ProductID t \<notin> p_ProductID ` set ps"
    and "r \<in> set (rows_of (full_data ts ps cs) k)"
  shows "snd r = None"
proof (cases "snd r")
  case None
  then show ?thesis .
next
  case (Some c)
  from assms(2) have in_fd: "(fst r, snd r) \<in> set (full_data ts ps cs)" and k: "t_CustomerID (fst r) = k"
    by (simp_all add: rows_of_def)
  from in_fd Some have "fst r \<in> set ts" and "t_ProductID (fst r) \<in> p_ProductID ` set ps"
    unfolding full_data_iff by force+
  with k assms(1) show ?thesis by (auto simp: transactions_of_def)
qed

lemma one_hot_missing:
  assumes "None \<in> set (map c_Region cs)"
  shows "map (\<lambda>c. if None = c then 1 else (0::real)) (region_categories cs)
           = replicate (length (region_categories cs) - 1) 0 @ [1]"
proof -
  have "map (\<lambda>c. if None = c then 1 else (0::real)) (map Some xs) = replicate (length xs) 0" for xs :: "string list"
    by (induction xs) simp_all
  then show ?thesis using assms by (simp add: region_categories_def)
qed

lemma sum_list_one_hot:
  assumes "distinct xs" "a \<in> set xs"
  shows "sum_list (map (\<lambda>c. if a = c then 1 else (0::real)) xs) = 1"
  using assms
proof (induction xs)
  case Nil
  then show ?case by simp
next
  case (Cons x xs)
  have "sum_list (map (\<lambda>c. if a = c then 1 else (0::real)) xs) = 0" if "a \<notin> set xs"
    using that by (induction xs) auto
  with Cons show ?case by auto
qed

subsection \<open>When the feature table is not built\<close>

text \<open>
  The feature table fails for an empty customer table and for a clash of column names,
  and for nothing else.
\<close>

lemma set_get_feature_names_out:
  "set (get_feature_names_out cs) = region_column_names cs"
  by (simp add: get_feature_names_out_def region_column_names_def set_region_categories image_image)

lemma set_transaction_feature_names:
  "set (transaction_feature_names (full_data ts ps cs)) =
     sold_categories ps ts \<union> {''UniqueProducts'', ''TotalTransactions''}"
  by (auto simp: transaction_feature_names_def set_categories sold_categories_def)

lemma region_column_names_prefix:
  "n \<in> region_column_names cs \<Longrightarrow> take 7 n = ''Region_''"
  by (auto simp: region_column_names_def)

lemma customer_data_fails_iff:
  "isl (customer_data cs ps ts) \<longleftrightarrow> cs = [] \<or> column_name_clash cs ps ts"
proof -
  have no1: "''UniqueProducts'' \<notin> region_column_names cs"
    using region_column_names_prefix[of "''UniqueProducts''" cs] by auto
  have no2: "''TotalTransactions'' \<notin> region_column_names cs"
    using region_column_names_prefix[of "''TotalTransactions''" cs] by auto
  have no3: "''CustomerID'' \<notin> region_column_names cs"
    using region_column_names_prefix[of "''CustomerID''" cs] by auto
  have overlap: "list_ex (\<lambda>n. n \<in> set (transaction_feature_names (full_data ts ps cs)))
                   (get_feature_names_out cs)
                 \<longleftrightarrow> (\<exists>c\<in>sold_categories ps ts. c \<in> region_column_names cs)"
    unfolding list_ex_iff set_get_feature_names_out set_transaction_feature_names
    using no1 no2 by auto
  have cid: "''CustomerID'' \<in> set (get_feature_names_out cs @ transaction_feature_names (full_data ts ps cs))
                 \<longleftrightarrow> ''CustomerID'' \<in> sold_categories ps ts"
    unfolding set_append set_get_feature_names_out set_transaction_feature_names
    using no3 by auto
  show ?thesis
  proof (cases "cs = []")
    case True
    then show ?thesis by (simp add: customer_data_def region_encoded_def)
  next
    case False
    then show ?thesis
      unfolding customer_data_def Let_def region_encoded_def column_name_clash_def
      by (simp only: if_False sum.case overlap cid) auto
  qed
qed

lemma customer_data_error:
  "customer_data cs ps ts = Inl e \<Longrightarrow> e = ValueError"
  by (auto simp: customer_data_def region_encoded_def Let_def split: if_splits sum.splits)

lemma customer_data_nonempty:
  "customer_data cs ps ts = Inr rows \<Longrightarrow> rows \<noteq> []"
proof -
  assume a: "customer_data cs ps ts = Inr rows"
  then have "\<not> isl (customer_data cs ps ts)" by simp
  then have "cs \<noteq> []" by (simp add: customer_data_fails_iff)
  with customer_data_keys[OF a] show ?thesis by auto
qed

subsection \<open>Transactions without a profile\<close>

text \<open>
  The rows of a customer of the customer table, and hence its aggregates, are the same
  with and without the transactions whose customer key has no profile; such transactions
  can only add a category column.
\<close>

lemma full_data_Cons:
  "full_data (t # ts) ps cs = full_data [t] ps cs @ full_data ts ps cs"
  by (simp add: full_data_def transactions_products_def)

lemma full_data_single_fst:
  "r \<in> set (full_data [t] ps cs) \<Longrightarrow> fst r = t"
  using full_data_fst[of "[t]" ps cs] by force

lemma rows_of_append: "rows_of (a @ b) k = rows_of a k @ rows_of b k"
  by (simp add: rows_of_def)

lemma rows_of_single_other:
  "t_CustomerID t \<noteq> k \<Longrightarrow> rows_of (full_data [t] ps cs) k = []"
  by (auto simp: rows_of_def filter_empty_conv dest: full_data_single_fst)

lemma rows_of_filter_has_profile:
  assumes "k \<in> c_CustomerID ` set cs"
  shows "rows_of (full_data (filter (has_profile cs) ts) ps cs) k = rows_of (full_data ts ps cs) k"
proof (induction ts)
  case Nil
  then show ?case by simp
next
  case (Cons t ts)
  show ?case
  proof (cases "has_profile cs t")
    case True
    then have "rows_of (full_data (filter (has_profile cs) (t # ts)) ps cs) k
                 = rows_of (full_data [t] ps cs) k @ rows_of (full_data (filter (has_profile cs) ts) ps cs) k"
      by (simp add: full_data_Cons[of t "filter (has_profile cs) ts"] rows_of_append)
    then show ?thesis
      by (simp add: Cons.IH full_data_Cons[of t ts] rows_of_append)
  next
    case False
    with assms have "t_CustomerID t \<noteq> k" by (auto simp: has_profile_def)
    then have "rows_of (full_data [t] ps cs) k = []" by (rule rows_of_single_other)
    with False show ?thesis
      by (simp add: Cons.IH full_data_Cons[of t ts] rows_of_append)
  qed
qed

lemma categories_sold:
  "categories (full_data ts ps cs) = sorted_list_of_set (sold_categories ps ts)"
proof -
  have "categories (full_data ts ps cs)
          = sorted_list_of_set (set (List.map_filter snd (full_data ts ps cs)))"
    by (simp add: categories_def sorted_list_of_set_sort_remdups)
  also have "set (List.map_filter snd (full_data ts ps cs)) = set (categories (full_data ts ps cs))"
    by (simp add: categories_def)
  also have "\<dots> = sold_categories ps ts"
    by (simp add: set_categories sold_categories_def)
  finally show ?thesis .
qed

lemma transaction_features_cong:
  "rows_of fd' k = rows_of fd k \<Longrightarrow> categories fd' = categories fd \<Longrightarrow>
   transaction_features fd' k = transaction_features fd k"
  by (simp add: transaction_features_def spend_per_category_def quantity_per_category_def
      unique_products_def total_transactions_def)

lemma customer_data_without_profile:
  assumes "sold_categories ps (filter (has_profile cs) ts) = sold_categories ps ts"
  shows "customer_data cs ps (filter (has_profile cs) ts) = customer_data cs ps ts"
proof -
  let ?fd' = "full_data (filter (has_profile cs) ts) ps cs" and ?fd = "full_data ts ps cs"
  have cats: "categories ?fd' = categories ?fd"
    by (simp add: categories_sold assms)
  have feat: "transaction_features ?fd' (c_CustomerID cu) = transaction_features ?fd (c_CustomerID cu)"
    if "cu \<in> set cs" for cu
    using that by (intro transaction_features_cong rows_of_filter_has_profile cats) simp
  have rows: "map (\<lambda>(cu, ind). (c_CustomerID cu,
                   ind @ fillna (2 * length (categories ?fd) + 2)
                                (transaction_features ?fd' (c_CustomerID cu)))) (zip cs enc)
            = map (\<lambda>(cu, ind). (c_CustomerID cu,
                   ind @ fillna (2 * length (categories ?fd) + 2)
                                (transaction_features ?fd (c_CustomerID cu)))) (zip cs enc)" for enc
    by (rule map_cong[OF refl]) (auto simp: feat dest: set_zip_leftD)
  show ?thesis
    unfolding customer_data_def Let_def transaction_feature_names_def cats rows ..
qed

subsection \<open>Scaling and cosine similarity\<close>

lemma finfo_eps_bounds: "0 < 10 * finfo_eps" "10 * finfo_eps \<le> 1"
  by (simp_all add: finfo_eps_def)

lemma handle_zeros_in_scale_pos: "0 < handle_zeros_in_scale s"
  using finfo_eps_bounds(1) by (auto simp: handle_zeros_in_scale_def)

lemma dot_Nil [simp]: "dot [] y = 0" "dot x [] = 0"
  by (simp_all add: dot_def)

lemma dot_Cons [simp]: "dot (a # x) (b # y) = a * b + dot x y"
  by (simp add: dot_def)

lemma dot_commute: "dot x y = dot y x"
proof (induction x arbitrary: y)
  case Nil
  then show ?case by simp
next
  case (Cons a x)
  then show ?case by (cases y) (simp_all add: mult.commute)
qed

lemma dot_self_nonneg: "0 \<le> dot x x"
  by (induction x) simp_all

lemma dot_self_square: "dot x x = (row_norms x)\<^sup>2"
  by (simp add: row_norms_def dot_self_nonneg)

lemma dot_divide:
  "dot (map (\<lambda>v. v / a) x) (map (\<lambda>v. v / b) y) = dot x y / (a * b)"
proof (induction x arbitrary: y)
  case Nil
  then show ?case by simp
next
  case (Cons u x)
  then show ?case by (cases y) (simp_all add: add_divide_distrib)
qed

lemma cosine_similarity_nth:
  assumes "i < length X" "j < length X"
  shows "cosine_similarity X ! i ! j =
           dot (X ! i) (X ! j)
           / (handle_zeros_in_scale (row_norms (X ! i)) * handle_zeros_in_scale (row_norms (X ! j)))"
  using assms by (simp add: cosine_similarity_def normalize_def dot_divide)

lemma column_bounds:
  assumes "r \<in> set X"
  shows "data_min X j \<le> r ! j" "r ! j \<le> data_max X j"
  using assms by (auto simp: data_min_def data_max_def column_def intro!: Min_le Max_ge)

lemma scaler_fit_transform_length:
  "scaler_fit_transform X = Inr S \<Longrightarrow> length S = length X"
  by (auto simp: scaler_fit_transform_def split: if_splits)

lemma customer_data_scaled_keys:
  assumes "customer_data_scaled cs ps ts = Inr rows"
  shows "map fst rows = map c_CustomerID cs"
proof -
  from assms obtain raw S where raw: "customer_data cs ps ts = Inr raw"
    and S: "scaler_fit_transform (map snd raw) = Inr S"
    and rows: "rows = zip (map fst raw) S"
    by (auto simp: customer_data_scaled_def split: sum.splits)
  from scaler_fit_transform_length[OF S] have "length (map fst raw) = length S" by simp
  then have "map fst rows = map fst raw" unfolding rows by (rule map_fst_zip)
  with customer_data_keys[OF raw] show ?thesis by simp
qed

lemma similarity_df_index:
  "similarity_df cs ps ts = Inr df \<Longrightarrow> fst df = map c_CustomerID cs"
  by (auto simp: similarity_df_def split: sum.splits dest: customer_data_scaled_keys)

lemma similarity_df_cases:
  "(\<exists>df. similarity_df cs ps ts = Inr df) \<and> \<not> isl (customer_data cs ps ts)
   \<or> similarity_df cs ps ts = Inl ValueError \<and> isl (customer_data cs ps ts)"
proof (cases "customer_data cs ps ts")
  case (Inl e)
  with customer_data_error[OF Inl] show ?thesis
    by (simp add: similarity_df_def customer_data_scaled_def)
next
  case (Inr rows)
  from customer_data_nonempty[OF Inr] have "map snd rows \<noteq> []" by simp
  with Inr show ?thesis
    by (simp add: similarity_df_def customer_data_scaled_def scaler_fit_transform_def)
qed

subsection \<open>Selecting the three largest\<close>

lemma occurs_before_nth:
  "i < j \<Longrightarrow> j < length xs \<Longrightarrow> occurs_before xs (xs ! i) (xs ! j)"
proof (induction xs arbitrary: i j)
  case Nil
  then show ?case by simp
next
  case (Cons x xs)
  show ?case
  proof (cases i)
    case 0
    with Cons.prems show ?thesis by (cases j) auto
  next
    case (Suc i')
    with Cons.prems obtain j' where j: "j = Suc j'" by (cases j) auto
    with Suc Cons.prems have "occurs_before xs (xs ! i') (xs ! j')"
      by (intro Cons.IH) auto
    with Suc j show ?thesis by simp
  qed
qed

lemma occurs_before_sorted:
  "sorted_wrt (<) xs \<Longrightarrow> occurs_before xs a b \<Longrightarrow> a < b"
  by (induction xs) auto

lemma occurs_before_zip:
  "sorted_wrt (\<lambda>a b. occurs_before index (fst a) (fst b)) (zip index row)"
  by (auto simp: sorted_wrt_iff_nth_less intro: occurs_before_nth)

text \<open>
  Insertion sort by a key is stable: entries with equal keys keep whatever order \<open>Q\<close>
  they had before.
\<close>

lemma insort_key_lex:
  fixes f :: "'a \<Rightarrow> 'b::linorder"
  assumes "sorted_wrt (\<lambda>a b. f a < f b \<or> (f a = f b \<and> Q a b)) ys"
    and "\<forall>y\<in>set ys. Q x y"
  shows "sorted_wrt (\<lambda>a b. f a < f b \<or> (f a = f b \<and> Q a b)) (insort_key f x ys)"
  using assms
proof (induction ys)
  case Nil
  then show ?case by simp
next
  case (Cons y ys)
  show ?case
  proof (cases "f x \<le> f y")
    case True
    have "f x < f z \<or> (f x = f z \<and> Q x z)" if "z \<in> set (y # ys)" for z
    proof -
      have "f y \<le> f z" using Cons.prems(1) that by auto
      with True have "f x \<le> f z" by simp
      moreover have "Q x z" using Cons.prems(2) that by auto
      ultimately show ?thesis by auto
    qed
    with True Cons.prems(1) show ?thesis by simp
  next
    case False
    with Cons show ?thesis by (auto simp: set_insort_key)
  qed
qed

lemma sort_key_lex:
  fixes f :: "'a \<Rightarrow> 'b::linorder"
  shows "sorted_wrt Q xs \<Longrightarrow> sorted_wrt (\<lambda>a b. f a < f b \<or> (f a = f b \<and> Q a b)) (sort_key f xs)"
  by (induction xs) (auto intro: insort_key_lex)

lemma nlargest_by_position:
  "sorted_wrt (by_score_then_position index)
     (nlargest n (filter P (zip index row)))"
proof -
  have "sorted_wrt (\<lambda>a b. occurs_before index (fst a) (fst b)) (filter P (zip index row))"
    by (rule sorted_wrt_filter) (rule occurs_before_zip)
  then have "sorted_wrt (\<lambda>a b. - snd a < - snd b \<or> (- snd a = - snd b \<and> occurs_before index (fst a) (fst b)))
       (sort_key (\<lambda>e. - snd e) (filter P (zip index row)))"
    by (rule sort_key_lex)
  then have "sorted_wrt (by_score_then_position index) (sort_key (\<lambda>e. - snd e) (filter P (zip index row)))"
    by (rule sorted_wrt_mono_rel[rotated]) (auto simp: by_score_then_position_def)
  then show ?thesis
    unfolding nlargest_def by (rule sorted_wrt_take)
qed

lemma top_3_customers_Inr:
  "top_3_customers df k = Inr res \<Longrightarrow>
   \<exists>i < length (fst df). res = nlargest 3 (filter (\<lambda>e. fst e \<noteq> k) (zip (fst df) (snd df ! i)))"
proof -
  assume a: "top_3_customers df k = Inr res"
  then obtain i where f: "filter (\<lambda>i. fst df ! i = k) [0..<length (fst df)] = [i]"
    and r: "res = nlargest 3 (filter (\<lambda>e. fst e \<noteq> k) (zip (fst df) (snd df ! i)))"
    by (auto simp: top_3_customers_def split: list.splits)
  have "i \<in> set (filter (\<lambda>i. fst df ! i = k) [0..<length (fst df)])"
    unfolding f by simp
  then have "i < length (fst df)" by simp
  with r show ?thesis by blast
qed

lemma lookalike_loop_Inr:
  "lookalike_loop df ks = Inr d \<Longrightarrow> (k, res) \<in> set d \<Longrightarrow> top_3_customers df k = Inr res"
  by (induction ks arbitrary: d) (auto split: sum.splits)

lemma lookalike_dict_Inr:
  assumes "lookalike_dict cs ps ts = Inr d" "(k, res) \<in> set d"
  shows "\<exists>row. res = nlargest 3 (filter (\<lambda>e. fst e \<noteq> k) (zip (map c_CustomerID cs) row))"
proof -
  from assms(1) obtain df where df: "similarity_df cs ps ts = Inr df"
    and loop: "lookalike_loop df (first_20_customers cs) = Inr d"
    by (auto simp: lookalike_dict_def split: sum.splits)
  from lookalike_loop_Inr[OF loop assms(2)] have "top_3_customers df k = Inr res" .
  from top_3_customers_Inr[OF this] similarity_df_index[OF df] show ?thesis by auto
qed

lemma distinct_fst_nlargest:
  assumes "distinct (map fst s)"
  shows "distinct (map fst (nlargest n s))"
proof -
  have "distinct (map fst (sort_key (\<lambda>e. - snd e) s))"
    using assms by (simp add: distinct_map)
  then show ?thesis
    unfolding nlargest_def take_map[symmetric] by (rule distinct_take)
qed

text \<open>
  The order and the distinctness of a result do not depend on the scores: they hold for
  every labelled matrix.
\<close>

lemma top_3_customers_sorted:
  "top_3_customers df k = Inr res \<Longrightarrow> sorted_wrt (by_score_then_position (fst df)) res"
  by (auto dest!: top_3_customers_Inr intro: nlargest_by_position)

lemma top_3_customers_distinct:
  assumes "distinct (fst df)" and "top_3_customers df k = Inr res"
  shows "distinct (map fst res) \<and> k \<notin> set (map fst res)"
proof -
  from top_3_customers_Inr[OF assms(2)] obtain i where
    res: "res = nlargest 3 (filter (\<lambda>e. fst e \<noteq> k) (zip (fst df) (snd df ! i)))" by blast
  have "distinct (map fst (zip (fst df) (snd df ! i)))"
    using assms(1) by (simp add: map_fst_zip_take distinct_take)
  then have "distinct (map fst (filter (\<lambda>e. fst e \<noteq> k) (zip (fst df) (snd df ! i))))"
    by (rule distinct_map_filter)
  then have "distinct (map fst res)" unfolding res by (rule distinct_fst_nlargest)
  moreover have "k \<notin> set (map fst res)"
    unfolding res nlargest_def by (auto dest!: in_set_takeD)
  ultimately show ?thesis by blast
qed

subsection \<open>When the loop fails\<close>

text \<open>
  A lookup fails when the key is not exactly once in the index, with \<^verbatim>\<open>KeyError\<close> when
  it is absent and \<^verbatim>\<open>TypeError\<close> when it is repeated; the loop stops at the first lookup
  that fails, with its error. The run as a whole fails when the feature table does, or
  when a queried customer key is repeated in the customer table.
\<close>

lemma positions_count:
  "length (filter (\<lambda>i. xs ! i = k) [0..<length xs]) = count_list xs k"
proof -
  have "filter (\<lambda>x. x = k) (map ((!) xs) [0..<length xs])
          = map ((!) xs) (filter (\<lambda>i. xs ! i = k) [0..<length xs])"
    by (simp add: filter_map comp_def)
  then have "length (filter (\<lambda>x. x = k) xs) = length (filter (\<lambda>i. xs ! i = k) [0..<length xs])"
    by (simp add: map_nth)
  moreover have "count_list xs k = length (filter (\<lambda>x. x = k) xs)"
    by (induction xs) auto
  ultimately show ?thesis by simp
qed

lemma top_3_customers_fails_iff:
  "isl (top_3_customers df k) \<longleftrightarrow> count_list (fst df) k \<noteq> 1"
proof -
  let ?ps = "filter (\<lambda>i. fst df ! i = k) [0..<length (fst df)]"
  have "isl (top_3_customers df k) \<longleftrightarrow> length ?ps \<noteq> 1"
    by (cases ?ps rule: list.exhaust; cases "tl ?ps")
       (auto simp: top_3_customers_def split: list.splits)
  then show ?thesis by (simp add: positions_count)
qed

lemma top_3_customers_error:
  "top_3_customers df k = Inl e \<Longrightarrow>
     (if k \<in> set (fst df) then e = TypeError else e = KeyError)"
proof -
  assume a: "top_3_customers df k = Inl e"
  let ?ps = "filter (\<lambda>i. fst df ! i = k) [0..<length (fst df)]"
  have mem: "?ps = [] \<longleftrightarrow> k \<notin> set (fst df)"
    by (auto simp: filter_empty_conv in_set_conv_nth)
  from a show ?thesis
    using mem by (auto simp: top_3_customers_def split: list.splits)
qed


lemma lookalike_loop_fails_iff:
  "isl (lookalike_loop df ks) \<longleftrightarrow> (\<exists>k\<in>set ks. isl (top_3_customers df k))"
  by (induction ks) (auto split: sum.splits)

lemma lookalike_loop_error:
  "lookalike_loop df ks = Inl e \<Longrightarrow> \<exists>k\<in>set ks. top_3_customers df k = Inl e"
  by (induction ks) (auto split: sum.splits)

lemma lookalike_dict_fails_iff:
  "isl (lookalike_dict cs ps ts) \<longleftrightarrow>
     cs = [] \<or> column_name_clash cs ps ts
     \<or> (\<exists>k\<in>set (first_20_customers cs). count_list (map c_CustomerID cs) k \<noteq> 1)"
proof -
  from similarity_df_cases[of cs ps ts] show ?thesis
  proof (elim disjE conjE exE)
    fix df assume df: "similarity_df cs ps ts = Inr df" and ok: "\<not> isl (customer_data cs ps ts)"
    have "isl (lookalike_dict cs ps ts) \<longleftrightarrow> isl (lookalike_loop df (first_20_customers cs))"
      by (simp add: lookalike_dict_def df)
    also have "\<dots> \<longleftrightarrow> (\<exists>k\<in>set (first_20_customers cs). count_list (map c_CustomerID cs) k \<noteq> 1)"
      by (simp add: lookalike_loop_fails_iff top_3_customers_fails_iff similarity_df_index[OF df])
    finally show ?thesis using ok by (simp add: customer_data_fails_iff)
  next
    assume "similarity_df cs ps ts = Inl ValueError" and "isl (customer_data cs ps ts)"
    then show ?thesis by (auto simp: lookalike_dict_def customer_data_fails_iff)
  qed
qed

text \<open>
  The notebook's own loop queries keys of the customer table only, which are all in the
  index: its run never ends in \<^verbatim>\<open>KeyError\<close>.
\<close>

lemma lookalike_dict_error:
  assumes "lookalike_dict cs ps ts = Inl e"
  shows "e \<noteq> KeyError"
proof -
  from similarity_df_cases[of cs ps ts] show ?thesis
  proof (elim disjE conjE exE)
    fix df assume df: "similarity_df cs ps ts = Inr df"
    with assms have "lookalike_loop df (first_20_customers cs) = Inl e"
      by (simp add: lookalike_dict_def)
    from lookalike_loop_error[OF this] obtain k where
      k: "k \<in> set (first_20_customers cs)" and e: "top_3_customers df k = Inl e" by blast
    from k have "k \<in> set (fst df)"
      unfolding similarity_df_index[OF df] first_20_customers_def by (auto dest: in_set_takeD)
    with top_3_customers_error[OF e] show ?thesis by simp
  next
    assume "similarity_df cs ps ts = Inl ValueError"
    with assms show ?thesis by (simp add: lookalike_dict_def)
  qed
qed

subsection \<open>The example tables, evaluated\<close>

lemmas example_defs = cA_def cB_def cC_def cD_def cE_def cF_def cN_def p1_def p2_def tA_def tB_def tU_def tS_def tL_def tZ_def

lemma handle_zeros_in_scale_0: "handle_zeros_in_scale 0 = 1"
  by (simp add: handle_zeros_in_scale_def finfo_eps_def)

lemma handle_zeros_in_scale_ge_1: "1 \<le> s \<Longrightarrow> handle_zeros_in_scale s = s"
  using finfo_eps_bounds(2) by (simp add: handle_zeros_in_scale_def)

lemma handle_zeros_in_scale_tiny: "s < 10 / 2 ^ 52 \<Longrightarrow> handle_zeros_in_scale s = 1"
  by (simp add: handle_zeros_in_scale_def finfo_eps_def)

lemmas scaler_defs = scaler_fit_transform_def scaler_scale_def scaler_min_def data_range_def
    data_min_def data_max_def column_def handle_zeros_in_scale_0 handle_zeros_in_scale_ge_1 upt_rec

lemma customer_data_1:
  "customer_data [cA, cB, cC] [p1] [tA, tB] =
     Inr [(''A'', [1, 0, 20, 2, 1, 1]), (''B'', [1, 0, 20, 2, 1, 1]), (''C'', [0, 1, 0, 0, 0, 0])]"
  unfolding example_defs by code_simp

lemma customer_data_3:
  "customer_data [cA, cB, cC] [p1, p2] [tA, tB] =
     Inr [(''A'', [1, 0, 20, 2, 1, 1]), (''B'', [1, 0, 20, 2, 1, 1]), (''C'', [0, 1, 0, 0, 0, 0])]"
  unfolding example_defs by code_simp

lemma customer_data_4:
  "customer_data [cA, cB, cC] [p1] [tA, tB, tU] =
     Inr [(''A'', [1, 0, 20, 2, 1, 1]), (''B'', [1, 0, 20, 2, 1, 1]), (''C'', [0, 1, 0, 0, 1, 1])]"
  unfolding example_defs by code_simp

lemma customer_data_5:
  "customer_data [cA, cN] [p1] [tA] =
     Inr [(''A'', [1, 0, 20, 2, 1, 1]), (''N'', [0, 1, 0, 0, 0, 0])]"
  unfolding example_defs by code_simp

lemma customer_data_6:
  "customer_data [cA, cB, cD] [p1] [tS, tL, tZ] =
     Inr [(''A'', [1, 1 / 2 ^ 60, 1, 1, 1]), (''B'', [1, 1, 1, 1, 1]), (''D'', [1, 0, 1, 1, 1])]"
  unfolding example_defs by code_simp

lemma customer_data_7:
  "customer_data [cB, cA, cD, cE, cF] [p1] [tA, tB] =
     Inr [(''B'', [1, 20, 2, 1, 1]), (''A'', [1, 20, 2, 1, 1]), (''D'', [1, 0, 0, 0, 0]),
          (''E'', [1, 0, 0, 0, 0]), (''F'', [1, 0, 0, 0, 0])]"
  unfolding example_defs by code_simp

lemma customer_data_8:
  "customer_data [cA, cB, cD, cE, cF] [p1] [tA, tB] =
     Inr [(''A'', [1, 20, 2, 1, 1]), (''B'', [1, 20, 2, 1, 1]), (''D'', [1, 0, 0, 0, 0]),
          (''E'', [1, 0, 0, 0, 0]), (''F'', [1, 0, 0, 0, 0])]"
  unfolding example_defs by code_simp

lemma customer_data_9:
  "customer_data [cA, cB, cC] [p1] [tA, tB, tU, tQ] =
     Inr [(''A'', [1, 0, 20, 2, 1, 1]), (''B'', [1, 0, 20, 2, 1, 1]), (''C'', [0, 1, 0, 0, 1, 1])]"
  unfolding example_defs tQ_def by code_simp

lemma customer_data_scaled_5:
  "customer_data_scaled [cA, cN] [p1] [tA] =
     Inr [(''A'', [1, 0, 1, 1, 1, 1]), (''N'', [0, 1, 0, 0, 0, 0])]"
  unfolding customer_data_scaled_def customer_data_5 by (simp add: scaler_defs)

lemma customer_data_scaled_6:
  "customer_data_scaled [cA, cB, cD] [p1] [tS, tL, tZ] =
     Inr [(''A'', [0, 1 / 2 ^ 60, 0, 0, 0]), (''B'', [0, 1, 0, 0, 0]), (''D'', [0, 0, 0, 0, 0])]"
  unfolding customer_data_scaled_def customer_data_6 by (simp add: scaler_defs)

lemma customer_data_scaled_7:
  "customer_data_scaled [cB, cA, cD, cE, cF] [p1] [tA, tB] =
     Inr [(''B'', [0, 1, 1, 1, 1]), (''A'', [0, 1, 1, 1, 1]), (''D'', [0, 0, 0, 0, 0]),
          (''E'', [0, 0, 0, 0, 0]), (''F'', [0, 0, 0, 0, 0])]"
  unfolding customer_data_scaled_def customer_data_7 by (simp add: scaler_defs)

lemma customer_data_scaled_8:
  "customer_data_scaled [cA, cB, cD, cE, cF] [p1] [tA, tB] =
     Inr [(''A'', [0, 1, 1, 1, 1]), (''B'', [0, 1, 1, 1, 1]), (''D'', [0, 0, 0, 0, 0]),
          (''E'', [0, 0, 0, 0, 0]), (''F'', [0, 0, 0, 0, 0])]"
  unfolding customer_data_scaled_def customer_data_8 by (simp add: scaler_defs)

lemma row_norms_1: "row_norms [1, 0, 1, 1, 1, 1] = sqrt 5"
  by (simp add: row_norms_def dot_def)

lemma row_norms_2: "row_norms [0, 1, 0, 0, 0, 0] = 1"
  by (simp add: row_norms_def dot_def)

lemma row_norms_3: "row_norms [0, t, 0, 0, 0] = \<bar>t\<bar>"
  by (simp add: row_norms_def dot_def)

lemma row_norms_4: "row_norms [0, 1, 1, 1, 1] = 2"
  by (simp add: row_norms_def dot_def)

lemma row_norms_5: "row_norms [0, 0, 0, 0, 0] = 0"
  by (simp add: row_norms_def dot_def)

lemmas cosine_defs = cosine_similarity_def normalize_def dot_def row_norms_1 row_norms_2 row_norms_3
    handle_zeros_in_scale_0 handle_zeros_in_scale_ge_1 handle_zeros_in_scale_tiny

lemma similarity_df_5:
  "similarity_df [cA, cN] [p1] [tA] = Inr ([''A'', ''N''], [[1, 0], [0, 1]])"
  unfolding similarity_df_def customer_data_scaled_5 by (simp add: cosine_defs)

lemma similarity_df_6:
  "similarity_df [cA, cB, cD] [p1] [tS, tL, tZ] =
     Inr ([''A'', ''B'', ''D''], [[1 / 2 ^ 120, 1 / 2 ^ 60, 0], [1 / 2 ^ 60, 1, 0], [0, 0, 0]])"
  unfolding similarity_df_def customer_data_scaled_6 by (simp add: cosine_defs)

lemma similarity_df_7:
  "similarity_df [cB, cA, cD, cE, cF] [p1] [tA, tB] =
     Inr ([''B'', ''A'', ''D'', ''E'', ''F''],
          [[1, 1, 0, 0, 0], [1, 1, 0, 0, 0], [0, 0, 0, 0, 0], [0, 0, 0, 0, 0], [0, 0, 0, 0, 0]])"
  unfolding similarity_df_def customer_data_scaled_7
  by (simp add: cosine_similarity_def normalize_def dot_def row_norms_4 row_norms_5
      handle_zeros_in_scale_0 handle_zeros_in_scale_ge_1)

lemma similarity_df_8:
  "similarity_df [cA, cB, cD, cE, cF] [p1] [tA, tB] =
     Inr ([''A'', ''B'', ''D'', ''E'', ''F''],
          [[1, 1, 0, 0, 0], [1, 1, 0, 0, 0], [0, 0, 0, 0, 0], [0, 0, 0, 0, 0], [0, 0, 0, 0, 0]])"
  unfolding similarity_df_def customer_data_scaled_8
  by (simp add: cosine_similarity_def normalize_def dot_def row_norms_4 row_norms_5
      handle_zeros_in_scale_0 handle_zeros_in_scale_ge_1)

lemmas loop_defs = lookalike_dict_def first_20_customers_def top_3_customers_def nlargest_def upt_rec

lemma lookalike_dict_5:
  "lookalike_dict [cA, cN] [p1] [tA] = Inr [(''A'', [(''N'', 0)]), (''N'', [(''A'', 0)])]"
  unfolding lookalike_dict_def similarity_df_5 by (simp add: loop_defs example_defs)

lemma lookalike_dict_7:
  "lookalike_dict [cB, cA, cD, cE, cF] [p1] [tA, tB] =
     Inr [(''B'', [(''A'', 1), (''D'', 0), (''E'', 0)]),
          (''A'', [(''B'', 1), (''D'', 0), (''E'', 0)]),
          (''D'', [(''B'', 0), (''A'', 0), (''E'', 0)]),
          (''E'', [(''B'', 0), (''A'', 0), (''D'', 0)]),
          (''F'', [(''B'', 0), (''A'', 0), (''D'', 0)])]"
  unfolding lookalike_dict_def similarity_df_7
  by (simp add: loop_defs example_defs)

lemma lookalike_dict_8:
  "lookalike_dict [cA, cB, cD, cE, cF] [p1] [tA, tB] =
     Inr [(''A'', [(''B'', 1), (''D'', 0), (''E'', 0)]),
          (''B'', [(''A'', 1), (''D'', 0), (''E'', 0)]),
          (''D'', [(''A'', 0), (''B'', 0), (''E'', 0)]),
          (''E'', [(''A'', 0), (''B'', 0), (''D'', 0)]),
          (''F'', [(''A'', 0), (''B'', 0), (''D'', 0)])]"
  unfolding lookalike_dict_def similarity_df_8
  by (simp add: loop_defs example_defs)

section \<open>The specification's statements\<close>

subsection \<open>C1: order of a result\<close>

text \<open>
  \<^bold>\<open>C1\<close>, as the code has it. Every result of the loop is sorted by score, highest
  first, and entries with equal scores come in the order their keys have in the
  customer table (the order of \<^verbatim>\<open>nlargest\<close> with \<^verbatim>\<open>keep='first'\<close>). When the customer
  table is listed in strictly ascending key order, equal scores therefore come in
  ascending key order.
\<close>

theorem top_k_ordering:
  assumes "lookalike_dict customers products transactions = Inr d" and "(k, res) \<in> set d"
  shows "sorted_wrt (by_score_then_position (map c_CustomerID customers)) res
       \<and> (sorted_wrt (<) (map c_CustomerID customers) \<longrightarrow> sorted_wrt by_score_then_key res)"
proof -
  from lookalike_dict_Inr[OF assms] obtain row where
    res: "res = nlargest 3 (filter (\<lambda>e. fst e \<noteq> k) (zip (map c_CustomerID customers) row))" ..
  have pos: "sorted_wrt (by_score_then_position (map c_CustomerID customers)) res"
    unfolding res by (rule nlargest_by_position)
  moreover have "sorted_wrt by_score_then_key res" if "sorted_wrt (<) (map c_CustomerID customers)"
    using pos
    by (rule sorted_wrt_mono_rel[rotated])
       (auto simp: by_score_then_position_def by_score_then_key_def dest: occurs_before_sorted[OF that])
  ultimately show ?thesis by blast
qed

theorem top_k_ordering_witness:
  "lookalike_dict [cA, cB, cD, cE, cF] [p1] [tA, tB] =
     Inr [(''A'', [(''B'', 1), (''D'', 0), (''E'', 0)]),
          (''B'', [(''A'', 1), (''D'', 0), (''E'', 0)]),
          (''D'', [(''A'', 0), (''B'', 0), (''E'', 0)]),
          (''E'', [(''A'', 0), (''B'', 0), (''D'', 0)]),
          (''F'', [(''A'', 0), (''B'', 0), (''D'', 0)])]
   \<and> sorted_wrt (<) (map c_CustomerID [cA, cB, cD, cE, cF])
   \<and> sorted_wrt (by_score_then_position (map c_CustomerID [cA, cB, cD, cE, cF]))
         [(''A'', 0), (''B'', 0), (''E'', 0)]
   \<and> sorted_wrt by_score_then_key [(''A'', 0), (''B'', 0), (''E'', 0)]"
proof -
  have srt: "sorted_wrt (<) (map c_CustomerID [cA, cB, cD, cE, cF])"
    by (simp add: example_defs)
  have mem: "(''D'', [(''A'', 0), (''B'', 0), (''E'', 0)]) \<in> set
         [(''A'', [(''B'', 1), (''D'', 0), (''E'', 0)]),
          (''B'', [(''A'', 1), (''D'', 0), (''E'', 0)]),
          (''D'', [(''A'', 0), (''B'', 0), (''E'', 0)]),
          (''E'', [(''A'', 0), (''B'', 0), (''D'', 0)]),
          (''F'', [(''A'', 0), (''B'', 0), (''D'', 0::real)])]"
    by simp
  show ?thesis
    using top_k_ordering[OF lookalike_dict_8 mem] srt lookalike_dict_8 by blast
qed

text \<open>
  \<^bold>\<open>C1\<close> as stated fails when the customer table is not in key order: with the
  customers listed \<open>B\<close>, \<open>A\<close>, \<open>D\<close>, \<open>E\<close>, \<open>F\<close>, all four candidates for \<open>D\<close>
  score 0 and the result is \<open>B\<close>, \<open>A\<close>, \<open>E\<close>: \<open>B\<close> comes before \<open>A\<close>.
\<close>

theorem top_k_ordering_counterexample:
  "lookalike_dict [cB, cA, cD, cE, cF] [p1] [tA, tB] =
     Inr [(''B'', [(''A'', 1), (''D'', 0), (''E'', 0)]),
          (''A'', [(''B'', 1), (''D'', 0), (''E'', 0)]),
          (''D'', [(''B'', 0), (''A'', 0), (''E'', 0)]),
          (''E'', [(''B'', 0), (''A'', 0), (''D'', 0)]),
          (''F'', [(''B'', 0), (''A'', 0), (''D'', 0)])]
   \<and> \<not> sorted_wrt by_score_then_key [(''B'', 0), (''A'', 0), (''E'', 0)]"
  by (simp add: lookalike_dict_7 by_score_then_key_def)

subsection \<open>C2: keys of the feature table, customers without transactions\<close>

text \<open>
  \<^bold>\<open>C2\<close>. When the feature table is built, its keys are exactly the customer keys of
  the profile table, and a customer with no transaction has an aggregate block of zeros.
\<close>

theorem feature_table_keys:
  assumes "customer_data customers products transactions = Inr rows"
  shows "fst ` set rows = c_CustomerID ` set customers \<and>
         (\<forall>(k, v)\<in>set rows. transactions_of transactions k = {} \<longrightarrow>
            aggregate_block customers v =
              replicate (2 * length (categories (full_data transactions products customers)) + 2) 0)"
proof (intro conjI)
  have "set (map fst rows) = set (map c_CustomerID customers)"
    by (simp only: customer_data_keys[OF assms])
  then show "fst ` set rows = c_CustomerID ` set customers" by simp
next
  show "\<forall>(k, v)\<in>set rows. transactions_of transactions k = {} \<longrightarrow>
            aggregate_block customers v =
              replicate (2 * length (categories (full_data transactions products customers)) + 2) 0"
  proof (clarify)
    fix k v assume kv: "(k, v) \<in> set rows" and none: "transactions_of transactions k = {}"
    from none have "rows_of (full_data transactions products customers) k = []"
      unfolding rows_of_empty transactions_of_def by blast
    then have "transaction_features (full_data transactions products customers) k = None"
      by (simp add: transaction_features_def)
    then show "aggregate_block customers v =
              replicate (2 * length (categories (full_data transactions products customers)) + 2) 0"
      unfolding aggregate_block_row[OF assms kv] by (simp add: fillna_def)
  qed
qed

theorem feature_table_keys_witness:
  "customer_data [cA, cB, cC] [p1] [tA, tB] =
     Inr [(''A'', [1, 0, 20, 2, 1, 1]), (''B'', [1, 0, 20, 2, 1, 1]), (''C'', [0, 1, 0, 0, 0, 0])]
   \<and> transactions_of [tA, tB] ''C'' = {}
   \<and> fst ` set [(''A'', [1, 0, 20, 2, 1, 1 :: real]), (''B'', [1, 0, 20, 2, 1, 1]),
                 (''C'', [0, 1, 0, 0, 0, 0])] = c_CustomerID ` set [cA, cB, cC]
   \<and> aggregate_block [cA, cB, cC] [0, 1, 0, 0, 0, 0] = [0, 0, 0, 0]"
proof -
  have none: "transactions_of [tA, tB] ''C'' = {}"
    by (auto simp: transactions_of_def example_defs)
  have "aggregate_block [cA, cB, cC] [0, 1, 0, 0, 0, 0] = [0, 0, 0, 0]"
    unfolding example_defs by code_simp
  then show ?thesis
    using feature_table_keys[OF customer_data_1] none customer_data_1 by simp
qed

subsection \<open>C3: a customer without a region\<close>

text \<open>
  \<^bold>\<open>C3\<close>, as the code has it. The encoder raises nothing for a missing region: on a
  non-empty customer table it returns one indicator row per customer, each as wide as
  the list of region categories and with entries summing to 1, and a customer without a
  region has its 1 in the last column, the category of the missing value.
\<close>

theorem missing_region:
  assumes "customers \<noteq> []"
  shows "\<exists>enc. region_encoded customers = Inr enc \<and> length enc = length customers \<and>
           (\<forall>i<length customers.
              length (enc ! i) = length (region_categories customers) \<and>
              sum_list (enc ! i) = 1 \<and>
              (c_Region (customers ! i) = None \<longrightarrow>
                 enc ! i = replicate (length (region_categories customers) - 1) 0 @ [1]))"
proof -
  let ?enc = "map (\<lambda>cu. map (\<lambda>c. if c_Region cu = c then 1 else (0::real)) (region_categories customers))
                  customers"
  have "region_encoded customers = Inr ?enc" using assms by (simp add: region_encoded_def)
  moreover have "length ?enc = length customers" by simp
  moreover have "length (?enc ! i) = length (region_categories customers) \<and>
              sum_list (?enc ! i) = 1 \<and>
              (c_Region (customers ! i) = None \<longrightarrow>
                 ?enc ! i = replicate (length (region_categories customers) - 1) 0 @ [1])"
    if i: "i < length customers" for i
  proof (intro conjI impI)
    show "length (?enc ! i) = length (region_categories customers)" using i by simp
    have "c_Region (customers ! i) \<in> set (region_categories customers)"
      unfolding set_region_categories using i by simp
    from sum_list_one_hot[OF distinct_region_categories this]
    show "sum_list (?enc ! i) = 1" using i by simp
  next
    assume none: "c_Region (customers ! i) = None"
    then have "None \<in> set (map c_Region customers)" using i by (force simp: in_set_conv_nth)
    from one_hot_missing[OF this] show "?enc ! i = replicate (length (region_categories customers) - 1) 0 @ [1]"
      using i none by simp
  qed
  ultimately show ?thesis by blast
qed

theorem missing_region_witness:
  "[cA, cN] \<noteq> [] \<and> c_Region ([cA, cN] ! 1) = None
   \<and> region_encoded [cA, cN] = Inr [[1, 0], [0, 1]]
   \<and> [[1, 0], [0, 1 :: real]] ! 1 = replicate (length (region_categories [cA, cN]) - 1) 0 @ [1]"
proof -
  have ne: "[cA, cN] \<noteq> []" by simp
  have enc: "region_encoded [cA, cN] = Inr [[1, 0], [0, 1]]"
    unfolding example_defs by code_simp
  have none: "c_Region ([cA, cN] ! 1) = None" by (simp add: example_defs)
  from missing_region[OF ne] enc none show ?thesis by auto
qed

text \<open>
  \<^bold>\<open>C3\<close> as stated fails: with customer \<open>N\<close> lacking a region, the encoding and the
  whole run succeed.
\<close>

theorem missing_region_counterexample:
  "c_Region cN = None
   \<and> region_encoded [cA, cN] = Inr [[1, 0], [0, 1]]
   \<and> lookalike_dict [cA, cN] [p1] [tA] = Inr [(''A'', [(''N'', 0)]), (''N'', [(''A'', 0)])]"
proof -
  have "region_encoded [cA, cN] = Inr [[1, 0], [0, 1]]"
    unfolding example_defs by code_simp
  then show ?thesis by (simp add: lookalike_dict_5) (simp add: example_defs)
qed

subsection \<open>C4: a key that is not in the similarity matrix\<close>



subsection \<open>C5: a constant column\<close>

text \<open>
  \<^bold>\<open>C5\<close>. On a non-empty table with rows of equal length, a column whose minimum
  equals its maximum is scaled to 0 in every row. The scaler returns a table; the range
  0 of the column is replaced by 1 before the division, so that the factor of the column
  is 1 and its shift is minus the column's value: nothing is divided by zero.
\<close>

theorem constant_column:
  assumes "X \<noteq> []" and "\<forall>r\<in>set X. length r = n" and "j < n"
    and "data_min X j = data_max X j"
  shows "\<exists>S. scaler_fit_transform X = Inr S \<and> length S = length X \<and>
             (\<forall>r\<in>set S. length r = n \<and> r ! j = 0) \<and>
             handle_zeros_in_scale (data_range X j) = 1 \<and>
             scaler_scale X j = 1 \<and> scaler_min X j = - data_min X j"
proof -
  have range0: "data_range X j = 0" using assms(4) by (simp add: data_range_def)
  then have h: "handle_zeros_in_scale (data_range X j) = 1"
    using finfo_eps_bounds(1) by (simp add: handle_zeros_in_scale_def)
  then have scale: "scaler_scale X j = 1" by (simp add: scaler_scale_def)
  then have shift: "scaler_min X j = - data_min X j" by (simp add: scaler_min_def)
  have const: "r ! j = data_min X j" if "r \<in> set X" for r
    using column_bounds[OF that, of j] assms(4) by simp
  let ?S = "map (\<lambda>r. map (\<lambda>j. r ! j * scaler_scale X j + scaler_min X j) [0..<length r]) X"
  have "scaler_fit_transform X = Inr ?S" using assms(1) by (simp add: scaler_fit_transform_def)
  moreover have "length ?S = length X" by simp
  moreover have "\<forall>r\<in>set ?S. length r = n \<and> r ! j = 0"
    using assms(2,3) by (auto simp: scale shift const)
  ultimately show ?thesis using h scale shift by blast
qed

theorem constant_column_witness:
  "[[1, 5], [1, 7 :: real]] \<noteq> [] \<and> list_all (\<lambda>r. length r = 2) [[1, 5], [1, 7 :: real]]
   \<and> (0::nat) < 2
   \<and> data_min [[1, 5], [1, 7]] 0 = data_max [[1, 5], [1, 7]] 0
   \<and> scaler_fit_transform [[1, 5], [1, 7]] = Inr [[0, 0], [0, 1]]
   \<and> list_all (\<lambda>r. r ! 0 = 0) [[0, 0], [0, 1 :: real]]
   \<and> scaler_scale [[1, 5], [1, 7]] 0 = 1
   \<and> scaler_min [[1, 5], [1, 7]] 0 = - 1"
proof -
  have 1: "[[1, 5], [1, 7 :: real]] \<noteq> []" by simp
  have 2: "\<forall>r\<in>set [[1, 5], [1, 7 :: real]]. length r = 2" by simp
  have 3: "(0::nat) < 2" by simp
  have 4: "data_min [[1, 5], [1, 7]] 0 = data_max [[1, 5], [1, 7]] 0"
    by (simp add: data_min_def data_max_def column_def)
  have 5: "scaler_fit_transform [[1, 5], [1, 7]] = Inr [[0, 0], [0, 1]]"
    by (simp add: scaler_defs)
  have 6: "data_min [[1, 5], [1, 7]] 0 = 1"
    by (simp add: data_min_def column_def)
  show ?thesis using constant_column[OF 1 2 3 4] 1 2 3 4 5 6 by (simp add: list_all_iff)
qed

subsection \<open>C6: transactions that match no product or no customer\<close>

text \<open>
  \<^bold>\<open>C6\<close>, as the code has it. An unmatched key is never a reason to fail: the
  feature table fails exactly when the customer table is empty or a category of a sold
  product clashes with a column name. Both merges keep every transaction, matched or
  not. A customer all of whose transactions name an unknown product has zero spend and
  zero quantity in every category, while its unique-product count and its transaction
  count still count those transactions. The transactions of unknown customers reach no
  customer's vector: without them the feature table is the same, as long as the sold
  categories are the same.
\<close>

theorem unmatched_rows:
  "(isl (customer_data customers products transactions) \<longleftrightarrow>
      customers = [] \<or> column_name_clash customers products transactions) \<and>
   fst ` set (full_data transactions products customers) = set transactions \<and>
   (\<forall>rows k v.
      customer_data customers products transactions = Inr rows \<longrightarrow> (k, v) \<in> set rows \<longrightarrow>
      (\<forall>t\<in>transactions_of transactions k. t_ProductID t \<notin> p_ProductID ` set products) \<longrightarrow>
      aggregate_block customers v =
        replicate (2 * card (sold_categories products transactions)) 0
        @ [real (card (t_ProductID ` transactions_of transactions k)),
           real (card (t_TransactionID ` transactions_of transactions k))]) \<and>
   (sold_categories products (filter (has_profile customers) transactions)
      = sold_categories products transactions \<longrightarrow>
    customer_data customers products (filter (has_profile customers) transactions)
      = customer_data customers products transactions)"
proof (intro conjI allI impI)
  show "isl (customer_data customers products transactions) \<longleftrightarrow>
      customers = [] \<or> column_name_clash customers products transactions"
    by (rule customer_data_fails_iff)
  show "fst ` set (full_data transactions products customers) = set transactions"
    by (rule full_data_fst)
  show "customer_data customers products (filter (has_profile customers) transactions)
      = customer_data customers products transactions"
    if "sold_categories products (filter (has_profile customers) transactions)
          = sold_categories products transactions"
    using that by (rule customer_data_without_profile)
next
  fix rows k v
  assume rows: "customer_data customers products transactions = Inr rows"
    and kv: "(k, v) \<in> set rows"
    and un: "\<forall>t\<in>transactions_of transactions k. t_ProductID t \<notin> p_ProductID ` set products"
  let ?fd = "full_data transactions products customers"
  let ?n = "length (categories ?fd)"
  have n: "card (sold_categories products transactions) = ?n"
    by (simp add: length_categories sold_categories_def)
  have fst_rows: "fst ` set (rows_of ?fd k) = transactions_of transactions k"
    unfolding transactions_of_def by (rule set_rows_of)
  have "replicate (2 * ?n + 2) (0::real) = replicate (2 * ?n) 0 @ replicate 2 0"
    by (rule replicate_add)
  then have zeros: "replicate (2 * ?n + 2) (0::real) = replicate (2 * ?n) 0 @ [0, 0]"
    by (simp only: replicate.simps numeral_2_eq_2)
  have twice: "replicate ?n (0::real) @ replicate ?n 0 = replicate (2 * ?n) 0"
    by (simp add: replicate_add[symmetric])
  show "aggregate_block customers v =
        replicate (2 * card (sold_categories products transactions)) 0
        @ [real (card (t_ProductID ` transactions_of transactions k)),
           real (card (t_TransactionID ` transactions_of transactions k))]"
    unfolding n
  proof (cases "rows_of ?fd k = []")
    case True
    then have "transactions_of transactions k = {}" using fst_rows by simp
    moreover from True have "transaction_features ?fd k = None"
      by (simp add: transaction_features_def)
    ultimately show "aggregate_block customers v =
        replicate (2 * ?n) 0
        @ [real (card (t_ProductID ` transactions_of transactions k)),
           real (card (t_TransactionID ` transactions_of transactions k))]"
      unfolding aggregate_block_row[OF rows kv] by (simp only: fillna_def option.case zeros)
         simp
  next
    case False
    have no_cat: "\<not> list_ex (\<lambda>r. snd r \<noteq> None) (rows_of ?fd k)"
      using rows_of_unmatched[OF un] by (auto simp: list_ex_iff)
    have p: "(\<lambda>r. t_ProductID (fst r)) ` set (rows_of ?fd k)
               = t_ProductID ` transactions_of transactions k"
      unfolding fst_rows[symmetric] by (simp add: image_image)
    have t: "(\<lambda>r. t_TransactionID (fst r)) ` set (rows_of ?fd k)
               = t_TransactionID ` transactions_of transactions k"
      unfolding fst_rows[symmetric] by (simp add: image_image)
    have "transaction_features ?fd k =
            Some ((replicate ?n 0 @ replicate ?n 0)
                  @ [real (card (t_ProductID ` transactions_of transactions k)),
                     real (card (t_TransactionID ` transactions_of transactions k))])"
      using False no_cat
      by (simp add: transaction_features_def spend_per_category_def quantity_per_category_def
          unique_products_def total_transactions_def fillna_def nunique_card p t)
    then show "aggregate_block customers v =
        replicate (2 * ?n) 0
        @ [real (card (t_ProductID ` transactions_of transactions k)),
           real (card (t_TransactionID ` transactions_of transactions k))]"
      unfolding aggregate_block_row[OF rows kv] twice by (simp add: fillna_def)
  qed
qed

theorem unmatched_rows_witness:
  "customer_data [cA, cB, cC] [p1] [tA, tB, tU, tQ] =
     Inr [(''A'', [1, 0, 20, 2, 1, 1]), (''B'', [1, 0, 20, 2, 1, 1]), (''C'', [0, 1, 0, 0, 1, 1])]
   \<and> [cA, cB, cC] \<noteq> []
   \<and> \<not> column_name_clash [cA, cB, cC] [p1] [tA, tB, tU, tQ]
   \<and> fst ` set (full_data [tA, tB, tU, tQ] [p1] [cA, cB, cC]) = set [tA, tB, tU, tQ]
   \<and> transactions_of [tA, tB, tU, tQ] ''C'' = {tU}
   \<and> t_ProductID tU \<notin> p_ProductID ` set [p1]
   \<and> sold_categories [p1] [tA, tB, tU, tQ] = {''Elec''}
   \<and> aggregate_block [cA, cB, cC] [0, 1, 0, 0, 1, 1] = [0, 0, 1, 1]
   \<and> \<not> has_profile [cA, cB, cC] tQ
   \<and> filter (has_profile [cA, cB, cC]) [tA, tB, tU, tQ] = [tA, tB, tU]
   \<and> sold_categories [p1] [tA, tB, tU] = {''Elec''}
   \<and> customer_data [cA, cB, cC] [p1] [tA, tB, tU] = customer_data [cA, cB, cC] [p1] [tA, tB, tU, tQ]"
proof -
  note inst = unmatched_rows[of "[cA, cB, cC]" "[p1]" "[tA, tB, tU, tQ]"]
  have ne: "[cA, cB, cC] \<noteq> []" by simp
  have t: "transactions_of [tA, tB, tU, tQ] ''C'' = {tU}"
    by (auto simp: transactions_of_def example_defs tQ_def)
  have u: "t_ProductID tU \<notin> p_ProductID ` set [p1]"
    by (simp add: example_defs)
  have sold: "sold_categories [p1] [tA, tB, tU, tQ] = {''Elec''}"
    by (auto simp: sold_categories_def example_defs tQ_def)
  have sold': "sold_categories [p1] [tA, tB, tU] = {''Elec''}"
    by (auto simp: sold_categories_def example_defs)
  have q: "\<not> has_profile [cA, cB, cC] tQ"
    by (simp add: has_profile_def example_defs tQ_def)
  have f: "filter (has_profile [cA, cB, cC]) [tA, tB, tU, tQ] = [tA, tB, tU]"
    by (simp add: has_profile_def example_defs tQ_def)
  have mem: "(''C'', [0, 1, 0, 0, 1, 1]) \<in> set [(''A'', [1, 0, 20, 2, 1, 1 :: real]),
        (''B'', [1, 0, 20, 2, 1, 1]), (''C'', [0, 1, 0, 0, 1, 1])]"
    by simp
  have hyp: "\<forall>t\<in>transactions_of [tA, tB, tU, tQ] ''C''. t_ProductID t \<notin> p_ProductID ` set [p1]"
    unfolding t using u by simp
  from inst have clash: "\<not> column_name_clash [cA, cB, cC] [p1] [tA, tB, tU, tQ]"
    using customer_data_9 by simp
  from inst have kept: "fst ` set (full_data [tA, tB, tU, tQ] [p1] [cA, cB, cC]) = set [tA, tB, tU, tQ]"
    by blast
  from inst customer_data_9 mem hyp
  have "aggregate_block [cA, cB, cC] [0, 1, 0, 0, 1, 1] =
          replicate (2 * card (sold_categories [p1] [tA, tB, tU, tQ])) 0
          @ [real (card (t_ProductID ` transactions_of [tA, tB, tU, tQ] ''C'')),
             real (card (t_TransactionID ` transactions_of [tA, tB, tU, tQ] ''C''))]"
    by blast
  then have agg: "aggregate_block [cA, cB, cC] [0, 1, 0, 0, 1, 1] = [0, 0, 1, 1]"
    unfolding sold t by (simp add: numeral_2_eq_2)
  from inst have "customer_data [cA, cB, cC] [p1] (filter (has_profile [cA, cB, cC]) [tA, tB, tU, tQ])
      = customer_data [cA, cB, cC] [p1] [tA, tB, tU, tQ]"
    unfolding f sold sold' by blast
  then have same: "customer_data [cA, cB, cC] [p1] [tA, tB, tU]
      = customer_data [cA, cB, cC] [p1] [tA, tB, tU, tQ]"
    unfolding f .
  from customer_data_9 ne clash kept t u sold agg q f sold' same show ?thesis by blast
qed

text \<open>
  \<^bold>\<open>C6\<close> as stated fails: the only transaction of customer \<open>C\<close> names the unknown
  product \<open>P9\<close>, and the aggregate block of \<open>C\<close> is \<open>[0, 0, 1, 1]\<close>, not all zero.
\<close>

theorem unmatched_rows_counterexample:
  "customer_data [cA, cB, cC] [p1] [tA, tB, tU] =
     Inr [(''A'', [1, 0, 20, 2, 1, 1]), (''B'', [1, 0, 20, 2, 1, 1]), (''C'', [0, 1, 0, 0, 1, 1])]
   \<and> transactions_of [tA, tB, tU] ''C'' = {tU}
   \<and> t_ProductID tU \<notin> p_ProductID ` set [p1]
   \<and> aggregate_block [cA, cB, cC] [0, 1, 0, 0, 1, 1] \<noteq> replicate 4 0"
proof -
  have "transactions_of [tA, tB, tU] ''C'' = {tU}"
    by (auto simp: transactions_of_def example_defs)
  moreover have "t_ProductID tU \<notin> p_ProductID ` set [p1]"
    by (simp add: example_defs)
  moreover have "aggregate_block [cA, cB, cC] [0, 1, 0, 0, 1, 1] = [0, 0, 1, 1]"
    unfolding example_defs by code_simp
  ultimately show ?thesis by (simp add: customer_data_4 numeral_eq_Suc)
qed

subsection \<open>C8: symmetry and the diagonal\<close>

text \<open>
  \<^bold>\<open>C8\<close>, as the code has it. The similarity matrix is symmetric. A row whose norm is
  below ten machine epsilons is left undivided by \<^verbatim>\<open>cosine_similarity\<close>: the diagonal
  entry of such a customer is the product of its row with itself and is less than 1.
  For the rows with a larger norm the diagonal entry is 1 only up to the rounding of the
  code's arithmetic, and nothing is stated of it here.
\<close>

theorem similarity_symmetric:
  assumes "i < length X" and "j < length X"
  shows "cosine_similarity X ! i ! j = cosine_similarity X ! j ! i \<and>
         (row_norms (X ! i) < 10 * finfo_eps \<longrightarrow>
            cosine_similarity X ! i ! i = dot (X ! i) (X ! i) \<and> cosine_similarity X ! i ! i < 1)"
proof (intro conjI impI)
  show "cosine_similarity X ! i ! j = cosine_similarity X ! j ! i"
    by (simp add: cosine_similarity_nth assms dot_commute[of "X ! i" "X ! j"] mult.commute)
next
  assume small: "row_norms (X ! i) < 10 * finfo_eps"
  then have h: "handle_zeros_in_scale (row_norms (X ! i)) = 1"
    by (simp add: handle_zeros_in_scale_def)
  show eq: "cosine_similarity X ! i ! i = dot (X ! i) (X ! i)"
    by (simp add: cosine_similarity_nth assms h)
  have nn: "0 \<le> row_norms (X ! i)" by (simp add: row_norms_def dot_self_nonneg)
  with small finfo_eps_bounds(2) have "row_norms (X ! i) < 1" by linarith
  with nn have "(row_norms (X ! i))\<^sup>2 < 1" by (simp add: power_less_one_iff)
  then show "cosine_similarity X ! i ! i < 1" unfolding eq dot_self_square .
qed

theorem similarity_symmetric_witness:
  "(0::nat) < length [[0, 1 / 2 ^ 60, 0, 0, 0], [0, 1, 0, 0, 0 :: real]]
   \<and> (1::nat) < length [[0, 1 / 2 ^ 60, 0, 0, 0], [0, 1, 0, 0, 0 :: real]]
   \<and> row_norms ([[0, 1 / 2 ^ 60, 0, 0, 0], [0, 1, 0, 0, 0]] ! 0) < 10 * finfo_eps
   \<and> cosine_similarity [[0, 1 / 2 ^ 60, 0, 0, 0], [0, 1, 0, 0, 0]] ! 0 ! 1
       = cosine_similarity [[0, 1 / 2 ^ 60, 0, 0, 0], [0, 1, 0, 0, 0]] ! 1 ! 0
   \<and> cosine_similarity [[0, 1 / 2 ^ 60, 0, 0, 0], [0, 1, 0, 0, 0]] ! 0 ! 0
       = dot [0, 1 / 2 ^ 60, 0, 0, 0] [0, 1 / 2 ^ 60, 0, 0, 0]
   \<and> cosine_similarity [[0, 1 / 2 ^ 60, 0, 0, 0], [0, 1, 0, 0, 0]] ! 0 ! 0 < 1"
proof -
  let ?X = "[[0, 1 / 2 ^ 60, 0, 0, 0], [0, 1, 0, 0, 0 :: real]]"
  have 0: "(0::nat) < length ?X" by simp
  have 1: "(1::nat) < length ?X" by simp
  have 2: "row_norms (?X ! 0) < 10 * finfo_eps"
    by (simp add: row_norms_3 finfo_eps_def)
  from similarity_symmetric[OF 0 1] 0 1 2 show ?thesis by simp
qed

text \<open>
  \<^bold>\<open>C8\<close> as stated fails for a positive norm below the threshold: the scaled vector
  of customer \<open>A\<close> has norm \<open>1 / 2 ^ 60\<close> and its diagonal entry is \<open>1 / 2 ^ 120\<close>.
\<close>

theorem similarity_symmetric_counterexample:
  "customer_data_scaled [cA, cB, cD] [p1] [tS, tL, tZ] =
     Inr [(''A'', [0, 1 / 2 ^ 60, 0, 0, 0]), (''B'', [0, 1, 0, 0, 0]), (''D'', [0, 0, 0, 0, 0])]
   \<and> 0 < row_norms [0, 1 / 2 ^ 60, 0, 0, 0]
   \<and> similarity_df [cA, cB, cD] [p1] [tS, tL, tZ] =
     Inr ([''A'', ''B'', ''D''], [[1 / 2 ^ 120, 1 / 2 ^ 60, 0], [1 / 2 ^ 60, 1, 0], [0, 0, 0]])
   \<and> [[1 / 2 ^ 120, 1 / 2 ^ 60, 0], [1 / 2 ^ 60, 1, 0], [0, 0, 0 :: real]] ! 0 ! 0 \<noteq> 1"
  by (simp add: customer_data_scaled_6 similarity_df_6 row_norms_3)

subsection \<open>C9: length of a feature vector\<close>

text \<open>
  \<^bold>\<open>C9\<close>, as the code has it. Every feature vector has length (number of distinct
  region values among the customers, a missing region counting as one value) + 2 *
  (number of distinct categories of the products that some transaction names) + 2; the
  length is the same for all customers.
\<close>

theorem vector_length:
  assumes "customer_data customers products transactions = Inr rows"
  shows "\<forall>(k, v)\<in>set rows.
           length v = card (c_Region ` set customers)
                    + card (sold_categories products transactions) * 2 + 2"
proof (clarify)
  fix k v assume kv: "(k, v) \<in> set rows"
  have "length v = length (region_categories customers)
          + (2 * length (categories (full_data transactions products customers)) + 2)"
    using customer_data_row[OF assms kv] by (auto simp: length_fillna_transaction_features)
  then show "length v = card (c_Region ` set customers)
                    + card (sold_categories products transactions) * 2 + 2"
    by (simp add: length_region_categories length_categories sold_categories_def)
qed

theorem vector_length_witness:
  "customer_data [cA, cB, cC] [p1, p2] [tA, tB] =
     Inr [(''A'', [1, 0, 20, 2, 1, 1]), (''B'', [1, 0, 20, 2, 1, 1]), (''C'', [0, 1, 0, 0, 0, 0])]
   \<and> card (c_Region ` set [cA, cB, cC]) + card (sold_categories [p1, p2] [tA, tB]) * 2 + 2 = 6"
  using vector_length[OF customer_data_3] customer_data_3 by simp

text \<open>
  \<^bold>\<open>C9\<close> as stated fails when a product category is never sold: with the unsold
  product \<open>P2\<close> of category \<open>Books\<close> the product table has two categories, and the
  vectors have length 6, not 2 + 2 * 2 + 2.
\<close>

theorem vector_length_counterexample:
  "customer_data [cA, cB, cC] [p1, p2] [tA, tB] =
     Inr [(''A'', [1, 0, 20, 2, 1, 1]), (''B'', [1, 0, 20, 2, 1, 1]), (''C'', [0, 1, 0, 0, 0, 0])]
   \<and> length [1, 0, 20, 2, 1, 1 :: real]
       \<noteq> card (c_Region ` set [cA, cB, cC]) + card (p_Category ` set [p1, p2]) * 2 + 2"
proof -
  have "card (c_Region ` set [cA, cB, cC]) = 2" by (simp add: example_defs)
  moreover have "card (p_Category ` set [p1, p2]) = 2" by (simp add: example_defs)
  ultimately show ?thesis by (simp add: customer_data_3)
qed

subsection \<open>C10: neighbours are distinct and exclude the customer itself\<close>

text \<open>
  \<^bold>\<open>C10\<close>. When the customer keys are pairwise distinct, the neighbour keys of every
  result are pairwise distinct and none of them is the queried key.
\<close>

theorem neighbors_distinct:
  assumes "distinct (map c_CustomerID customers)"
    and "lookalike_dict customers products transactions = Inr d" and "(k, res) \<in> set d"
  shows "distinct (map fst res) \<and> k \<notin> set (map fst res)"
proof -
  from lookalike_dict_Inr[OF assms(2,3)] obtain row where
    res: "res = nlargest 3 (filter (\<lambda>e. fst e \<noteq> k) (zip (map c_CustomerID customers) row))" ..
  have "distinct (map fst (zip (map c_CustomerID customers) row))"
    using assms(1) by (simp add: map_fst_zip_take distinct_take)
  then have "distinct (map fst (filter (\<lambda>e. fst e \<noteq> k) (zip (map c_CustomerID customers) row)))"
    by (rule distinct_map_filter)
  then have "distinct (map fst res)" unfolding res by (rule distinct_fst_nlargest)
  moreover have "k \<notin> set (map fst res)"
    unfolding res nlargest_def by (auto dest!: in_set_takeD)
  ultimately show ?thesis by blast
qed

theorem neighbors_distinct_witness:
  "distinct (map c_CustomerID [cB, cA, cD, cE, cF])
   \<and> lookalike_dict [cB, cA, cD, cE, cF] [p1] [tA, tB] =
     Inr [(''B'', [(''A'', 1), (''D'', 0), (''E'', 0)]),
          (''A'', [(''B'', 1), (''D'', 0), (''E'', 0)]),
          (''D'', [(''B'', 0), (''A'', 0), (''E'', 0)]),
          (''E'', [(''B'', 0), (''A'', 0), (''D'', 0)]),
          (''F'', [(''B'', 0), (''A'', 0), (''D'', 0)])]
   \<and> distinct (map fst [(''B'', 0::real), (''A'', 0), (''E'', 0)])
   \<and> ''D'' \<notin> set (map fst [(''B'', 0::real), (''A'', 0), (''E'', 0)])"
proof -
  have d: "distinct (map c_CustomerID [cB, cA, cD, cE, cF])"
    by (simp add: example_defs)
  have mem: "(''D'', [(''B'', 0), (''A'', 0), (''E'', 0)]) \<in> set
         [(''B'', [(''A'', 1), (''D'', 0), (''E'', 0)]),
          (''A'', [(''B'', 1), (''D'', 0), (''E'', 0)]),
          (''D'', [(''B'', 0), (''A'', 0), (''E'', 0)]),
          (''E'', [(''B'', 0), (''A'', 0), (''D'', 0)]),
          (''F'', [(''B'', 0), (''A'', 0), (''D'', 0::real)])]"
    by simp
  show ?thesis
    using neighbors_distinct[OF d lookalike_dict_7 mem] d lookalike_dict_7 by blast
qed

end
